theory Spec2Isabelle
  imports Main
begin

section \<open>JavaScript values of a loaded OpenAPI document\<close>

text \<open>
  \<^verbatim>\<open>index.mjs\<close> reads every document with \<^verbatim>\<open>yaml.load\<close> and walks the result with plain
  JavaScript property reads. The values are modelled as a tagged tree. A mapping is the list
  of its own properties in creation order: \<^verbatim>\<open>yaml.load\<close> creates an empty object and assigns
  the keys of a YAML mapping one after the other, so creation order is document order, and it
  rejects a mapping that repeats a key, so the keys of a loaded mapping are distinct.

  Limits of the model: numbers are integers (rendered in decimal) and strings are byte strings
  with ASCII case mapping. A property read is modelled on the own properties of a value (plus
  index and \<^verbatim>\<open>length\<close> of sequences and strings). In JavaScript a read \<^verbatim>\<open>v[k]\<close> that finds no
  own property goes on to the members that \<open>v\<close> inherits from its prototype, such as
  \<^verbatim>\<open>constructor\<close> or \<^verbatim>\<open>toString\<close>; an own property hides an inherited one, so the model and the
  code agree wherever the model finds a property, and wherever the key names no inherited
  member. The predicate \<open>no_inherited\<close> below states the second condition for a mapping.
\<close>

datatype jsval =
    JUndefined
  | JNull
  | JBool bool
  | JNum int
  | JStr string
  | JArr "jsval list"
  | JObj "(string \<times> jsval) list"

datatype error = TypeError | SyntaxError

text \<open>
  A tool returns one text block: either a template string written in the source (a
  diagnostic), or \<^verbatim>\<open>toYaml(v)\<close> for a value \<open>v\<close>. The renderer is outside the engine, so the
  second case keeps the value handed to it.
\<close>

datatype outcome = Text string | Yaml jsval

definition bindE :: "error + 'a \<Rightarrow> ('a \<Rightarrow> error + 'b) \<Rightarrow> error + 'b" where
  "bindE m f = (case m of Inl e \<Rightarrow> Inl e | Inr x \<Rightarrow> f x)"

subsection \<open>Truthiness, \<^verbatim>\<open>||\<close> and property reads\<close>

fun truthy :: "jsval \<Rightarrow> bool" where
  "truthy JUndefined = False"
| "truthy JNull = False"
| "truthy (JBool b) = b"
| "truthy (JNum n) = (n \<noteq> 0)"
| "truthy (JStr s) = (s \<noteq> [])"
| "truthy (JArr xs) = True"
| "truthy (JObj kvs) = True"

fun nullish :: "jsval \<Rightarrow> bool" where
  "nullish JUndefined = True"
| "nullish JNull = True"
| "nullish v = False"

text \<open>\<^verbatim>\<open>a || b\<close>\<close>

definition or_else :: "jsval \<Rightarrow> jsval \<Rightarrow> jsval" where
  "or_else a b = (if truthy a then a else b)"

subsection \<open>Decimal strings and array indices\<close>

definition digit_char :: "nat \<Rightarrow> char" where
  "digit_char d = ''0123456789'' ! d"

fun show_nat :: "nat \<Rightarrow> string" where
  "show_nat n = (if n < 10 then [digit_char n] else show_nat (n div 10) @ [digit_char (n mod 10)])"

declare show_nat.simps [simp del]

definition show_int :: "int \<Rightarrow> string" where
  "show_int i = (if i < 0 then CHR ''-'' # show_nat (nat (- i)) else show_nat (nat i))"

definition is_digit :: "char \<Rightarrow> bool" where
  "is_digit c = (c \<in> set ''0123456789'')"

definition digit_val :: "char \<Rightarrow> nat" where
  "digit_val c = (case map_of (zip ''0123456789'' [0, 1, 2, 3, 4, 5, 6, 7, 8, 9]) c of Some d \<Rightarrow> d | None \<Rightarrow> 0)"

definition parse_nat :: "string \<Rightarrow> nat" where
  "parse_nat s = foldl (\<lambda>a c. 10 * a + digit_val c) 0 s"

text \<open>
  An array index (ECMAScript 6.1.7) is a property key that is the canonical decimal string of
  an integer from 0 to \<open>2^32 - 2\<close>: digits only, no leading zero. Status codes such as
  \<^verbatim>\<open>200\<close> and \<^verbatim>\<open>404\<close> are array indices; \<^verbatim>\<open>default\<close> and \<^verbatim>\<open>2XX\<close> are not.
\<close>

definition is_array_index :: "string \<Rightarrow> bool" where
  "is_array_index k =
     (k \<noteq> [] \<and> list_all is_digit k \<and> (hd k \<noteq> CHR ''0'' \<or> k = ''0'') \<and> parse_nat k < 4294967295)"

text \<open>
  \<^verbatim>\<open>v[k]\<close> on a value that is neither \<^verbatim>\<open>null\<close> nor \<^verbatim>\<open>undefined\<close>: an absent property reads
  as \<^verbatim>\<open>undefined\<close>.
\<close>

fun own_prop :: "jsval \<Rightarrow> string \<Rightarrow> jsval" where
  "own_prop (JObj kvs) k = (case map_of kvs k of Some v \<Rightarrow> v | None \<Rightarrow> JUndefined)"
| "own_prop (JArr xs) k =
     (if k = ''length'' then JNum (int (length xs))
      else if is_array_index k \<and> parse_nat k < length xs then xs ! parse_nat k
      else JUndefined)"
| "own_prop (JStr s) k =
     (if k = ''length'' then JNum (int (length s))
      else if is_array_index k \<and> parse_nat k < length s then JStr [s ! parse_nat k]
      else JUndefined)"
| "own_prop v k = JUndefined"

text \<open>\<^verbatim>\<open>v.k\<close> and \<^verbatim>\<open>v[k]\<close>: a TypeError on \<^verbatim>\<open>null\<close> and \<^verbatim>\<open>undefined\<close>.\<close>

definition get :: "jsval \<Rightarrow> string \<Rightarrow> error + jsval" where
  "get v k = (if nullish v then Inl TypeError else Inr (own_prop v k))"

text \<open>\<^verbatim>\<open>v?.k\<close> and \<^verbatim>\<open>v?.[k]\<close>\<close>

definition get_opt :: "jsval \<Rightarrow> string \<Rightarrow> jsval" where
  "get_opt v k = (if nullish v then JUndefined else own_prop v k)"

subsection \<open>Own keys in enumeration order\<close>

text \<open>
  \<^verbatim>\<open>Object.keys\<close>, \<^verbatim>\<open>Object.values\<close> and \<^verbatim>\<open>Object.entries\<close> list the own enumerable string keys
  in the order of OrdinaryOwnPropertyKeys (ECMAScript 10.1.11): first the array indices in
  ascending numeric order, then the other keys in creation order. On \<^verbatim>\<open>null\<close> and
  \<^verbatim>\<open>undefined\<close> they throw a TypeError; a number or a boolean has no own keys.
\<close>

definition ordered_keys :: "string list \<Rightarrow> string list" where
  "ordered_keys ks =
     sort_key parse_nat (filter is_array_index ks) @ filter (\<lambda>k. \<not> is_array_index k) ks"

fun own_keys :: "jsval \<Rightarrow> string list" where
  "own_keys (JObj kvs) = ordered_keys (map fst kvs)"
| "own_keys (JArr xs) = map show_nat [0 ..< length xs]"
| "own_keys (JStr s) = map show_nat [0 ..< length s]"
| "own_keys v = []"

definition Object_keys :: "jsval \<Rightarrow> error + string list" where
  "Object_keys v = (if nullish v then Inl TypeError else Inr (own_keys v))"

definition Object_entries :: "jsval \<Rightarrow> error + (string \<times> jsval) list" where
  "Object_entries v =
     (if nullish v then Inl TypeError else Inr (map (\<lambda>k. (k, own_prop v k)) (own_keys v)))"

definition Object_values :: "jsval \<Rightarrow> error + jsval list" where
  "Object_values v = (if nullish v then Inl TypeError else Inr (map (own_prop v) (own_keys v)))"

text \<open>
  The members of \<^verbatim>\<open>Object.prototype\<close> (ECMAScript 20.1.3 and B.2.2), which every mapping of a
  loaded document inherits.
\<close>

definition object_prototype_members :: "string list" where
  "object_prototype_members =
     [''constructor'', ''hasOwnProperty'', ''isPrototypeOf'', ''propertyIsEnumerable'',
      ''toLocaleString'', ''toString'', ''valueOf'', ''__proto__'',
      ''__defineGetter__'', ''__defineSetter__'', ''__lookupGetter__'', ''__lookupSetter__'']"

text \<open>
  The read \<^verbatim>\<open>v[k]\<close> is decided by the own properties of \<open>v\<close>: \<open>v\<close> is a mapping, and \<open>k\<close> is
  one of its keys or names no member of \<^verbatim>\<open>Object.prototype\<close>. Then \<open>own_prop v k\<close> is what
  the code reads.
\<close>

fun no_inherited :: "jsval \<Rightarrow> string \<Rightarrow> bool" where
  "no_inherited (JObj kvs) k = (k \<in> set (map fst kvs) \<or> k \<notin> set object_prototype_members)"
| "no_inherited v k = False"

text \<open>An own property is stored under its key: an existing key keeps its place.\<close>

fun put_own :: "(string \<times> jsval) list \<Rightarrow> string \<Rightarrow> jsval \<Rightarrow> (string \<times> jsval) list" where
  "put_own [] k v = [(k, v)]"
| "put_own ((k', v') # kvs) k v = (if k' = k then (k, v) # kvs else (k', v') # put_own kvs k v)"

text \<open>
  \<^verbatim>\<open>obj[k] = v\<close> on an object that the handler builds from \<^verbatim>\<open>{}\<close>. The key \<^verbatim>\<open>__proto__\<close> is
  the accessor that \<^verbatim>\<open>Object.prototype\<close> provides: the assignment calls its setter, which
  replaces the prototype of \<^verbatim>\<open>obj\<close> (or does nothing for a primitive \<open>v\<close>) and creates no own
  property. Every other key becomes an own property.
\<close>

definition assign :: "(string \<times> jsval) list \<Rightarrow> string \<Rightarrow> jsval \<Rightarrow> (string \<times> jsval) list" where
  "assign kvs k v = (if k = ''__proto__'' then kvs else put_own kvs k v)"

subsection \<open>Strings\<close>

definition upper_letters :: string where
  "upper_letters = ''ABCDEFGHIJKLMNOPQRSTUVWXYZ''"

definition lower_letters :: string where
  "lower_letters = ''abcdefghijklmnopqrstuvwxyz''"

definition toLowerCase :: "string \<Rightarrow> string" where
  "toLowerCase s =
     map (\<lambda>c. case map_of (zip upper_letters lower_letters) c of Some d \<Rightarrow> d | None \<Rightarrow> c) s"

definition toUpperCase :: "string \<Rightarrow> string" where
  "toUpperCase s =
     map (\<lambda>c. case map_of (zip lower_letters upper_letters) c of Some d \<Rightarrow> d | None \<Rightarrow> c) s"

text \<open>\<^verbatim>\<open>xs.join(sep)\<close> on a list of strings\<close>

fun join :: "string \<Rightarrow> string list \<Rightarrow> string" where
  "join sep [] = []"
| "join sep [x] = x"
| "join sep (x # y # ys) = x @ sep @ join sep (y # ys)"

section \<open>The tools of \<^verbatim>\<open>index.mjs\<close>\<close>

definition http_methods :: "string list" where
  "http_methods = [''get'', ''post'', ''put'', ''delete'', ''patch'', ''options'', ''head'']"

subsection \<open>\<^verbatim>\<open>list-endpoints\<close>\<close>

text \<open>The inner loop: \<open>acc\<close> is \<^verbatim>\<open>pathMap[path]\<close>.\<close>

fun list_methods :: "jsval \<Rightarrow> string list \<Rightarrow> (string \<times> jsval) list \<Rightarrow> error + (string \<times> jsval) list" where
  "list_methods pathItem [] acc = Inr acc"
| "list_methods pathItem (method # ms) acc =
     (let operation = own_prop pathItem method in
      bindE (get operation ''summary'') (\<lambda>summary.
        list_methods pathItem ms
          (assign acc (toUpperCase method) (or_else summary (JStr ''No summary'')))))"

text \<open>The outer loop over \<^verbatim>\<open>Object.entries(openApiDoc.paths || {})\<close>.\<close>

fun list_paths :: "(string \<times> jsval) list \<Rightarrow> (string \<times> jsval) list \<Rightarrow> error + (string \<times> jsval) list" where
  "list_paths [] pathMap = Inr pathMap"
| "list_paths ((path, pathItem) # es) pathMap =
     bindE (Object_keys pathItem) (\<lambda>ks.
       let methods = filter (\<lambda>key. toLowerCase key \<in> set http_methods) ks in
       bindE (list_methods pathItem methods []) (\<lambda>m.
         list_paths es (assign pathMap path (JObj m))))"

definition list_endpoints :: "jsval \<Rightarrow> error + outcome" where
  "list_endpoints openApiDoc =
     bindE (get openApiDoc ''paths'') (\<lambda>pathsObj.
     bindE (Object_entries (or_else pathsObj (JObj []))) (\<lambda>es.
     bindE (list_paths es []) (\<lambda>pathMap.
       Inr (Yaml (JObj pathMap)))))"

subsection \<open>\<^verbatim>\<open>get-endpoint\<close>, \<^verbatim>\<open>get-request-body\<close>, \<^verbatim>\<open>get-response-schema\<close>\<close>

definition get_endpoint :: "jsval \<Rightarrow> string \<Rightarrow> string \<Rightarrow> error + outcome" where
  "get_endpoint openApiDoc path method =
     bindE (get openApiDoc ''paths'') (\<lambda>pathsObj.
     let pathItem = get_opt pathsObj path in
     if \<not> truthy pathItem then Inr (Text (''Path '' @ path @ '' not found''))
     else
       bindE (get pathItem (toLowerCase method)) (\<lambda>operation.
       if \<not> truthy operation
       then Inr (Text (''Method '' @ method @ '' not found for path '' @ path))
       else
         bindE (get operation ''summary'') (\<lambda>summary.
         bindE (get operation ''description'') (\<lambda>description.
         bindE (get operation ''tags'') (\<lambda>tags.
         bindE (get operation ''parameters'') (\<lambda>parameters.
         bindE (get operation ''requestBody'') (\<lambda>requestBody.
         bindE (get operation ''responses'') (\<lambda>responses.
         bindE (get operation ''security'') (\<lambda>security.
         bindE (get operation ''deprecated'') (\<lambda>deprecated.
           Inr (Yaml (JObj
             [(''path'', JStr path),
              (''method'', JStr (toUpperCase method)),
              (''summary'', summary),
              (''description'', description),
              (''tags'', tags),
              (''parameters'', parameters),
              (''requestBody'', requestBody),
              (''responses'', responses),
              (''security'', security),
              (''deprecated'', deprecated)]))))))))))))"

definition get_request_body :: "jsval \<Rightarrow> string \<Rightarrow> string \<Rightarrow> error + outcome" where
  "get_request_body openApiDoc path method =
     bindE (get openApiDoc ''paths'') (\<lambda>pathsObj.
     let pathItem = get_opt pathsObj path in
     if \<not> truthy pathItem then Inr (Text (''Path '' @ path @ '' not found''))
     else
       bindE (get pathItem (toLowerCase method)) (\<lambda>operation.
       if \<not> truthy operation
       then Inr (Text (''Method '' @ method @ '' not found for path '' @ path))
       else
         bindE (get operation ''requestBody'') (\<lambda>requestBody.
         if \<not> truthy requestBody
         then Inr (Text (''No request body defined for '' @ method @ '' '' @ path))
         else Inr (Yaml requestBody))))"

text \<open>
  \<open>statusCode\<close> is the argument after the schema's \<^verbatim>\<open>.default("200")\<close>: the handler always
  receives a string.
\<close>

definition get_response_schema :: "jsval \<Rightarrow> string \<Rightarrow> string \<Rightarrow> string \<Rightarrow> error + outcome" where
  "get_response_schema openApiDoc path method statusCode =
     bindE (get openApiDoc ''paths'') (\<lambda>pathsObj.
     let pathItem = get_opt pathsObj path in
     if \<not> truthy pathItem then Inr (Text (''Path '' @ path @ '' not found''))
     else
       bindE (get pathItem (toLowerCase method)) (\<lambda>operation.
       if \<not> truthy operation
       then Inr (Text (''Method '' @ method @ '' not found for path '' @ path))
       else
         bindE (get operation ''responses'') (\<lambda>responses.
         if \<not> truthy responses
         then Inr (Text (''No responses defined for '' @ method @ '' '' @ path))
         else
           bindE (get responses statusCode) (\<lambda>exact.
           bindE (if truthy exact then Inr exact else get responses ''default'') (\<lambda>response.
           if \<not> truthy response
           then
             bindE (Object_keys responses) (\<lambda>ks.
               Inr (Text (''No response for status code '' @ statusCode
                 @ '' (or default) found for '' @ method @ '' '' @ path @ ''.'' @ [CHR 0x0A]
                 @ ''Available status codes: '' @ join '', '' ks)))
           else Inr (Yaml response))))))"

subsection \<open>\<^verbatim>\<open>get-path-parameters\<close>\<close>

text \<open>
  Spread \<^verbatim>\<open>[...v]\<close> and \<^verbatim>\<open>for (const x of v)\<close>: a sequence yields its elements, a string its
  characters, anything else is not iterable.
\<close>

fun iterate :: "jsval \<Rightarrow> error + jsval list" where
  "iterate (JArr xs) = Inr xs"
| "iterate (JStr s) = Inr (map (\<lambda>c. JStr [c]) s)"
| "iterate v = Inl TypeError"

text \<open>An optional string argument is falsy when it is missing or empty.\<close>

fun given :: "string option \<Rightarrow> bool" where
  "given None = False"
| "given (Some s) = (s \<noteq> [])"

definition get_path_parameters :: "jsval \<Rightarrow> string \<Rightarrow> string option \<Rightarrow> error + outcome" where
  "get_path_parameters openApiDoc path method =
     bindE (get openApiDoc ''paths'') (\<lambda>pathsObj.
     let pathItem = get_opt pathsObj path in
     if \<not> truthy pathItem then Inr (Text (''Path '' @ path @ '' not found''))
     else
       bindE (get pathItem ''parameters'') (\<lambda>shared.
       bindE (iterate (or_else shared (JArr []))) (\<lambda>parameters0.
       bindE
         (if given method then
            bindE (get pathItem (toLowerCase (the method))) (\<lambda>operation.
              if \<not> truthy operation then Inr parameters0
              else
                bindE (get operation ''parameters'') (\<lambda>own.
                  if \<not> truthy own then Inr parameters0
                  else bindE (iterate own) (\<lambda>more. Inr (parameters0 @ more))))
          else Inr parameters0)
         (\<lambda>parameters.
           if length parameters = 0
           then Inr (Text (''No parameters found for ''
                  @ (if given method then toUpperCase (the method) @ '' '' else [])
                  @ path))
           else Inr (Yaml (JArr parameters))))))"

subsection \<open>\<^verbatim>\<open>get-examples\<close>\<close>

datatype example_type = Request | Response | Component

text \<open>
  The loop over \<^verbatim>\<open>Object.entries(content)\<close> of the request and response modes: \<open>examples\<close> is
  the object under construction.
\<close>

fun collect_examples :: "(string \<times> jsval) list \<Rightarrow> (string \<times> jsval) list \<Rightarrow> error + (string \<times> jsval) list" where
  "collect_examples [] examples = Inr examples"
| "collect_examples ((contentType, content) # es) examples =
     bindE (get content ''examples'') (\<lambda>multi.
       if truthy multi then collect_examples es (assign examples contentType multi)
       else
         bindE (get content ''example'') (\<lambda>single.
           if truthy single
           then collect_examples es
                  (assign examples contentType (JObj [(''default'', JObj [(''value'', single)])]))
           else collect_examples es examples))"

text \<open>A template string prints a missing optional argument as \<^verbatim>\<open>undefined\<close>.\<close>

fun show_arg :: "string option \<Rightarrow> string" where
  "show_arg None = ''undefined''"
| "show_arg (Some s) = s"

definition request_examples :: "jsval \<Rightarrow> string option \<Rightarrow> string option \<Rightarrow> error + outcome" where
  "request_examples openApiDoc path method =
     (if \<not> given path \<or> \<not> given method
      then Inr (Text ''Path and method are required for request examples'')
      else
        bindE (get openApiDoc ''paths'') (\<lambda>pathsObj.
        let operation = get_opt (get_opt pathsObj (the path)) (toLowerCase (the method)) in
        if \<not> truthy operation
        then Inr (Text (''Operation '' @ toUpperCase (the method) @ '' '' @ the path @ '' not found''))
        else
          bindE (get operation ''requestBody'') (\<lambda>requestBody.
          let content = get_opt requestBody ''content'' in
          if \<not> truthy content
          then Inr (Text (''No request body defined for '' @ toUpperCase (the method) @ '' '' @ the path))
          else
            bindE (Object_entries content) (\<lambda>es.
            bindE (collect_examples es []) (\<lambda>examples.
              if length examples = 0
              then Inr (Text (''No examples found for '' @ toUpperCase (the method) @ '' ''
                     @ the path @ '' request''))
              else Inr (Yaml (JObj examples)))))))"

text \<open>The response mode once \<^verbatim>\<open>responseObj\<close> is selected and truthy.\<close>

definition examples_of_response ::
  "jsval \<Rightarrow> string \<Rightarrow> string \<Rightarrow> string option \<Rightarrow> error + outcome" where
  "examples_of_response responseObj path method statusCode =
     bindE (get responseObj ''content'') (\<lambda>content.
     if \<not> truthy content then Inr (Text ''No content defined in response'')
     else
       bindE (Object_entries content) (\<lambda>es.
       bindE (collect_examples es []) (\<lambda>examples.
         if length examples = 0
         then Inr (Text (''No examples found for '' @ toUpperCase method @ '' ''
                @ path @ '' response''
                @ (if given statusCode then '' '' @ the statusCode else [])))
         else Inr (Yaml (JObj examples)))))"

text \<open>\<^verbatim>\<open>xs[0]\<close> on a fresh array: \<^verbatim>\<open>undefined\<close> when it is empty.\<close>

fun first_or_undefined :: "jsval list \<Rightarrow> jsval" where
  "first_or_undefined [] = JUndefined"
| "first_or_undefined (v # vs) = v"

definition response_examples ::
  "jsval \<Rightarrow> string option \<Rightarrow> string option \<Rightarrow> string option \<Rightarrow> error + outcome" where
  "response_examples openApiDoc path method statusCode =
     (if \<not> given path \<or> \<not> given method
      then Inr (Text ''Path and method are required for response examples'')
      else
        bindE (get openApiDoc ''paths'') (\<lambda>pathsObj.
        let operation = get_opt (get_opt pathsObj (the path)) (toLowerCase (the method)) in
        if \<not> truthy operation
        then Inr (Text (''Operation '' @ toUpperCase (the method) @ '' '' @ the path @ '' not found''))
        else
          bindE (get operation ''responses'') (\<lambda>responses.
          if \<not> truthy responses
          then Inr (Text (''No responses defined for '' @ toUpperCase (the method) @ '' '' @ the path))
          else
            bindE
              (if given statusCode then get responses (the statusCode)
               else bindE (Object_values responses) (\<lambda>vs. Inr (first_or_undefined vs)))
              (\<lambda>responseObj.
            if \<not> truthy responseObj
            then
              bindE (Object_keys responses) (\<lambda>ks.
                Inr (Text (''Response '' @ show_arg statusCode @ '' not found for ''
                  @ toUpperCase (the method) @ '' '' @ the path @ ''. Available: '' @ join '', '' ks)))
            else examples_of_response responseObj (the path) (the method) statusCode))))"

definition component_examples :: "jsval \<Rightarrow> string option \<Rightarrow> string option \<Rightarrow> error + outcome" where
  "component_examples openApiDoc componentType componentName =
     (if \<not> given componentType \<or> \<not> given componentName
      then Inr (Text ''Component type and name are required for component examples'')
      else
        bindE (get openApiDoc ''components'') (\<lambda>comps.
        let component = get_opt (get_opt comps (the componentType)) (the componentName) in
        if \<not> truthy component
        then Inr (Text (''Component '' @ the componentType @ ''.'' @ the componentName @ '' not found''))
        else
          bindE (get component ''examples'') (\<lambda>multi.
          bindE
            (if truthy multi then Inr multi
             else bindE (get component ''example'') (\<lambda>single.
                    Inr (if truthy single then JObj [(''default'', single)] else JNull)))
            (\<lambda>examples.
          if \<not> truthy examples
          then Inr (Text (''No examples found for component '' @ the componentType @ ''.''
                 @ the componentName))
          else Inr (Yaml examples)))))"

definition get_examples ::
  "jsval \<Rightarrow> example_type \<Rightarrow> string option \<Rightarrow> string option \<Rightarrow> string option
     \<Rightarrow> string option \<Rightarrow> string option \<Rightarrow> error + outcome" where
  "get_examples openApiDoc type path method statusCode componentType componentName =
     (case type of
        Request \<Rightarrow> request_examples openApiDoc path method
      | Response \<Rightarrow> response_examples openApiDoc path method statusCode
      | Component \<Rightarrow> component_examples openApiDoc componentType componentName)"

subsection \<open>\<^verbatim>\<open>search-schema\<close>\<close>

text \<open>
  \<^verbatim>\<open>searchRegex.test(v)\<close> and a template string convert \<open>v\<close> to a string first. A sequence joins
  its elements with commas, \<^verbatim>\<open>null\<close> and \<^verbatim>\<open>undefined\<close> elements as empty strings. A mapping is
  \<^verbatim>\<open>[object Object]\<close>, unless it has a key \<^verbatim>\<open>toString\<close> of its own: that value is not
  callable and the conversion throws a TypeError.
\<close>

fun ToString :: "jsval \<Rightarrow> error + string"
  and ToString_elements :: "jsval list \<Rightarrow> error + string list" where
  "ToString JUndefined = Inr ''undefined''"
| "ToString JNull = Inr ''null''"
| "ToString (JBool b) = Inr (if b then ''true'' else ''false'')"
| "ToString (JNum n) = Inr (show_int n)"
| "ToString (JStr s) = Inr s"
| "ToString (JArr xs) =
     (case ToString_elements xs of Inl e \<Rightarrow> Inl e | Inr ss \<Rightarrow> Inr (join '','' ss))"
| "ToString (JObj kvs) =
     (if ''toString'' \<in> set (map fst kvs) then Inl TypeError else Inr ''[object Object]'')"
| "ToString_elements [] = Inr []"
| "ToString_elements (x # xs) =
     (case (if nullish x then Inr [] else ToString x) of
        Inl e \<Rightarrow> Inl e
      | Inr s \<Rightarrow> (case ToString_elements xs of Inl e \<Rightarrow> Inl e | Inr ss \<Rightarrow> Inr (s # ss)))"

text \<open>
  The compiled expression is a parameter \<open>test\<close>, a predicate on strings: without the \<^verbatim>\<open>g\<close>
  flag \<^verbatim>\<open>test\<close> keeps no state between calls.
\<close>

definition regex_test :: "(string \<Rightarrow> bool) \<Rightarrow> jsval \<Rightarrow> error + bool" where
  "regex_test test v = bindE (ToString v) (\<lambda>s. Inr (test s))"

text \<open>\<^verbatim>\<open>a || b\<close> on conditions: \<open>b\<close> is not evaluated when \<open>a\<close> holds.\<close>

definition orE :: "error + bool \<Rightarrow> error + bool \<Rightarrow> error + bool" where
  "orE a b = bindE a (\<lambda>x. if x then Inr True else b)"

record results =
  paths :: "string list"
  operations :: "string list"
  components :: "string list"
  parameters :: "string list"
  securitySchemes :: "string list"

text \<open>\<^verbatim>\<open>operation.tags.some((tag) => searchRegex.test(tag))\<close> on the elements of a sequence\<close>

fun some_tag :: "(string \<Rightarrow> bool) \<Rightarrow> jsval list \<Rightarrow> error + bool" where
  "some_tag test [] = Inr False"
| "some_tag test (tag # tags) = orE (regex_test test tag) (some_tag test tags)"

text \<open>Only a sequence has a method \<^verbatim>\<open>some\<close>; calling it on another truthy value throws.\<close>

definition operation_matches :: "(string \<Rightarrow> bool) \<Rightarrow> jsval \<Rightarrow> error + bool" where
  "operation_matches test operation =
     orE (bindE (get operation ''summary'') (\<lambda>s. regex_test test (or_else s (JStr []))))
    (orE (bindE (get operation ''description'') (\<lambda>d. regex_test test (or_else d (JStr []))))
         (bindE (get operation ''tags'') (\<lambda>tags.
            if \<not> truthy tags then Inr False
            else (case tags of JArr ts \<Rightarrow> some_tag test ts | _ \<Rightarrow> Inl TypeError))))"

fun scan_parameters ::
  "(string \<Rightarrow> bool) \<Rightarrow> string \<Rightarrow> string \<Rightarrow> jsval list \<Rightarrow> results \<Rightarrow> error + results" where
  "scan_parameters test path method [] r = Inr r"
| "scan_parameters test path method (param # ps) r =
     bindE
       (orE (bindE (get param ''name'') (\<lambda>n. regex_test test (or_else n (JStr []))))
            (bindE (get param ''description'') (\<lambda>d. regex_test test (or_else d (JStr [])))))
       (\<lambda>hit.
         if hit then
           bindE (get param ''name'') (\<lambda>n.
           bindE (ToString n) (\<lambda>name.
             scan_parameters test path method ps
               (r\<lparr>parameters := parameters r
                    @ [name @ '' ('' @ toUpperCase method @ '' '' @ path @ '')'']\<rparr>)))
         else scan_parameters test path method ps r)"

fun scan_methods ::
  "(string \<Rightarrow> bool) \<Rightarrow> string \<Rightarrow> jsval \<Rightarrow> string list \<Rightarrow> results \<Rightarrow> error + results" where
  "scan_methods test path pathItem [] r = Inr r"
| "scan_methods test path pathItem (method # ms) r =
     bindE (get pathItem method) (\<lambda>operation.
       if \<not> truthy operation then scan_methods test path pathItem ms r
       else
         bindE (operation_matches test operation) (\<lambda>hit.
         let r1 = (if hit then r\<lparr>operations := operations r @ [toUpperCase method @ '' '' @ path]\<rparr>
                   else r) in
         bindE (get operation ''parameters'') (\<lambda>ps.
         bindE (iterate (or_else ps (JArr []))) (\<lambda>params.
         bindE (scan_parameters test path method params r1) (\<lambda>r2.
           scan_methods test path pathItem ms r2)))))"

text \<open>The loop over \<^verbatim>\<open>Object.keys(openApiDoc.paths || {})\<close>; \<open>pathsObj\<close> is \<^verbatim>\<open>openApiDoc.paths\<close>.\<close>

fun scan_paths ::
  "(string \<Rightarrow> bool) \<Rightarrow> jsval \<Rightarrow> string list \<Rightarrow> results \<Rightarrow> error + results" where
  "scan_paths test pathsObj [] r = Inr r"
| "scan_paths test pathsObj (path # ps) r =
     (let r1 = (if test path then r\<lparr>paths := paths r @ [path]\<rparr> else r) in
      bindE (get pathsObj path) (\<lambda>pathItem.
      bindE (scan_methods test path pathItem http_methods r1) (\<lambda>r2.
        scan_paths test pathsObj ps r2)))"

text \<open>The inner loop of the components scan, over the entries of one category \<open>type\<close>.\<close>

fun scan_category ::
  "(string \<Rightarrow> bool) \<Rightarrow> string \<Rightarrow> (string \<times> jsval) list \<Rightarrow> results \<Rightarrow> error + results" where
  "scan_category test type [] r = Inr r"
| "scan_category test type ((name, component) # es) r =
     bindE
       (orE (Inr (test name))
            (bindE (get component ''description'') (\<lambda>d. regex_test test (or_else d (JStr [])))))
       (\<lambda>hit.
         scan_category test type es
           (if hit then r\<lparr>components := components r @ [type @ ''.'' @ name]\<rparr> else r))"

text \<open>\<^verbatim>\<open>typeof v === "object"\<close> for a truthy \<open>v\<close>\<close>

fun is_object :: "jsval \<Rightarrow> bool" where
  "is_object (JObj kvs) = True"
| "is_object (JArr xs) = True"
| "is_object v = False"

fun scan_components ::
  "(string \<Rightarrow> bool) \<Rightarrow> (string \<times> jsval) list \<Rightarrow> results \<Rightarrow> error + results" where
  "scan_components test [] r = Inr r"
| "scan_components test ((type, typeObj) # es) r =
     (if \<not> truthy typeObj \<or> \<not> is_object typeObj then scan_components test es r
      else
        bindE (Object_entries typeObj) (\<lambda>items.
        bindE (scan_category test type items r) (\<lambda>r1.
          scan_components test es r1)))"

fun scan_schemes ::
  "(string \<Rightarrow> bool) \<Rightarrow> (string \<times> jsval) list \<Rightarrow> results \<Rightarrow> error + results" where
  "scan_schemes test [] r = Inr r"
| "scan_schemes test ((name, scheme) # es) r =
     bindE
       (orE (Inr (test name))
            (bindE (get scheme ''description'') (\<lambda>d. regex_test test (or_else d (JStr [])))))
       (\<lambda>hit.
         scan_schemes test es
           (if hit then r\<lparr>securitySchemes := securitySchemes r @ [name]\<rparr> else r))"

text \<open>
  The clean-up loop deletes every key of \<^verbatim>\<open>results\<close> whose array is empty; the keys are in
  the order of the object literal.
\<close>

definition result_entries :: "results \<Rightarrow> (string \<times> string list) list" where
  "result_entries r =
     [(''paths'', paths r),
      (''operations'', operations r),
      (''components'', components r),
      (''parameters'', parameters r),
      (''securitySchemes'', securitySchemes r)]"

definition clean_up :: "results \<Rightarrow> (string \<times> string list) list" where
  "clean_up r = filter (\<lambda>(key, xs). length xs \<noteq> 0) (result_entries r)"

definition render_results :: "results \<Rightarrow> string \<Rightarrow> outcome" where
  "render_results r pattern =
     (let kept = clean_up r in
      if length kept = 0 then Text (''No matches found for '' @ [CHR 0x22] @ pattern @ [CHR 0x22])
      else Yaml (JObj (map (\<lambda>(key, xs). (key, JArr (map JStr xs))) kept)))"

text \<open>The three scans of the handler, from the empty \<^verbatim>\<open>results\<close> object.\<close>

definition scan_document :: "(string \<Rightarrow> bool) \<Rightarrow> jsval \<Rightarrow> error + results" where
  "scan_document test openApiDoc =
     bindE (get openApiDoc ''paths'') (\<lambda>pathsObj.
     bindE (Object_keys (or_else pathsObj (JObj []))) (\<lambda>ks.
     bindE (scan_paths test pathsObj ks
              \<lparr>paths = [], operations = [], components = [], parameters = [],
               securitySchemes = []\<rparr>) (\<lambda>r1.
     bindE (get openApiDoc ''components'') (\<lambda>c.
     let comps = or_else c (JObj []) in
     bindE (Object_entries comps) (\<lambda>ces.
     bindE (scan_components test ces r1) (\<lambda>r2.
     bindE (get comps ''securitySchemes'') (\<lambda>schemes.
     bindE (Object_entries (or_else schemes (JObj []))) (\<lambda>ses.
       scan_schemes test ses r2))))))))"

text \<open>
  \<open>RegExp\<close> stands for \<^verbatim>\<open>new RegExp(pattern, "i")\<close>: it gives the compiled expression's
  \<^verbatim>\<open>test\<close>, or nothing for a malformed pattern, where the constructor throws a SyntaxError.
\<close>

definition search_schema ::
  "(string \<Rightarrow> (string \<Rightarrow> bool) option) \<Rightarrow> jsval \<Rightarrow> string \<Rightarrow> error + outcome" where
  "search_schema RegExp openApiDoc pattern =
     (case RegExp pattern of
        None \<Rightarrow> Inl SyntaxError
      | Some test \<Rightarrow>
          bindE (scan_document test openApiDoc) (\<lambda>r. Inr (render_results r pattern)))"

section \<open>Sample documents\<close>

text \<open>A Path Item whose \<^verbatim>\<open>get\<close> key has no value.\<close>

definition doc_null_operation :: jsval where
  "doc_null_operation = JObj [(''paths'', JObj [(''/pets'', JObj [(''get'', JNull)])])]"

text \<open>A component whose value is \<^verbatim>\<open>null\<close>.\<close>

definition doc_null_component :: jsval where
  "doc_null_component = JObj [(''components'', JObj [(''schemas'', JObj [(''Pet'', JNull)])])]"

text \<open>A path with a shared parameter and a \<^verbatim>\<open>get\<close> operation that declares it again.\<close>

definition doc_shared_parameters :: jsval where
  "doc_shared_parameters =
     JObj [(''paths'', JObj [(''/pets'', JObj
       [(''parameters'', JArr [JObj [(''name'', JStr ''limit''), (''in'', JStr ''query'')]]),
        (''get'', JObj
          [(''summary'', JStr ''List all pets''),
           (''parameters'', JArr [JObj [(''name'', JStr ''limit''), (''in'', JStr ''header'')]])]),
        (''post'', JObj [(''description'', JStr ''Creates a new pet'')])])])]"

text \<open>The same single example on a request body and on a schema component.\<close>

definition doc_single_example :: jsval where
  "doc_single_example =
     JObj
       [(''paths'', JObj [(''/pets'', JObj [(''post'', JObj [(''requestBody'', JObj
          [(''content'', JObj [(''application/json'', JObj [(''example'', JStr ''Rex'')])])])])])]),
        (''components'', JObj [(''schemas'', JObj [(''Pet'', JObj [(''example'', JStr ''Rex'')])])])]"

text \<open>An operation that lists its \<^verbatim>\<open>404\<close> response before its \<^verbatim>\<open>200\<close> response.\<close>

definition doc_unordered_responses :: jsval where
  "doc_unordered_responses =
     JObj [(''paths'', JObj [(''/pets'', JObj [(''get'', JObj [(''responses'', JObj
       [(''404'', JObj [(''content'', JObj
           [(''application/json'', JObj [(''example'', JStr ''missing'')])])]),
        (''200'', JObj [(''content'', JObj
           [(''application/json'', JObj [(''example'', JStr ''found'')])])])])])])])]"

text \<open>One security scheme and nothing else.\<close>

definition doc_security :: jsval where
  "doc_security =
     JObj [(''components'', JObj [(''securitySchemes'', JObj
       [(''apiKeyAuth'', JObj [(''type'', JStr ''apiKey''), (''description'', JStr ''API key'')])])])]"

text \<open>A stand-in for a compiled pattern: it matches the strings that contain \<open>p\<close>, case ignored.\<close>

fun contains :: "string \<Rightarrow> string \<Rightarrow> bool" where
  "contains p [] = (p = [])"
| "contains p (c # s) = (take (length p) (c # s) = p \<or> contains p s)"

definition substring_RegExp :: "string \<Rightarrow> (string \<Rightarrow> bool) option" where
  "substring_RegExp pattern = Some (\<lambda>s. contains (toLowerCase pattern) (toLowerCase s))"

text \<open>An operation that lists its \<^verbatim>\<open>default\<close> response before its \<^verbatim>\<open>200\<close> response.\<close>

definition doc_default_response :: jsval where
  "doc_default_response =
     JObj [(''paths'', JObj [(''/pets'', JObj [(''get'', JObj [(''responses'', JObj
       [(''default'', JObj [(''description'', JStr ''unexpected error'')]),
        (''200'', JObj [(''content'', JObj
           [(''application/json'', JObj [(''example'', JStr ''found'')])])])])])])])]"

text \<open>A \<^verbatim>\<open>paths\<close> mapping with the key \<^verbatim>\<open>__proto__\<close> beside \<^verbatim>\<open>/pets\<close>.\<close>

definition doc_proto_path :: jsval where
  "doc_proto_path =
     JObj [(''paths'', JObj
       [(''/pets'', JObj [(''get'', JObj [(''summary'', JStr ''List all pets'')])]),
        (''__proto__'', JObj [(''get'', JObj [(''summary'', JStr ''Hidden'')])])])]"

section \<open>Basic facts\<close>

lemma bindE_Inr [simp]: "bindE (Inr x) f = f x"
  by (simp add: bindE_def)

lemma bindE_Inl [simp]: "bindE (Inl e) f = Inl e"
  by (simp add: bindE_def)

lemma truthy_not_nullish: "truthy v \<Longrightarrow> \<not> nullish v"
  by (cases v) simp_all

lemma get_truthy [simp]: "truthy v \<Longrightarrow> get v k = Inr (own_prop v k)"
  by (simp add: get_def truthy_not_nullish)

lemma Object_keys_truthy [simp]: "truthy v \<Longrightarrow> Object_keys v = Inr (own_keys v)"
  by (simp add: Object_keys_def truthy_not_nullish)

lemma Object_entries_truthy [simp]:
  "truthy v \<Longrightarrow> Object_entries v = Inr (map (\<lambda>k. (k, own_prop v k)) (own_keys v))"
  by (simp add: Object_entries_def truthy_not_nullish)

lemma Object_values_truthy [simp]:
  "truthy v \<Longrightarrow> Object_values v = Inr (map (own_prop v) (own_keys v))"
  by (simp add: Object_values_def truthy_not_nullish)

text \<open>The unfoldings that evaluate a tool on a concrete document.\<close>

lemmas js_eval =
  get_def get_opt_def bindE_def or_else_def Object_keys_def Object_entries_def Object_values_def
  toLowerCase_def toUpperCase_def upper_letters_def lower_letters_def http_methods_def
  ordered_keys_def is_array_index_def is_digit_def parse_nat_def digit_val_def
  assign_def object_prototype_members_def

section \<open>Operation lookup\<close>

lemma truthy_read_truthy: "truthy (own_prop v k) \<Longrightarrow> truthy v"
  by (cases v) (auto split: if_splits)

text \<open>
  C1, as the code has it. Take a document whose \<^verbatim>\<open>paths\<close> holds the path with a mapping as
  its Path Item, and a method argument whose lower-cased form is a key of the Path Item or
  names no member of \<^verbatim>\<open>Object.prototype\<close>. The four tools read the key
  \<^verbatim>\<open>method.toLowerCase()\<close> of the Path Item, whatever that key is, and test the value for
  truthiness; no membership in the fixed method set is tested. \<^verbatim>\<open>get-endpoint\<close>,
  \<^verbatim>\<open>get-request-body\<close> and \<^verbatim>\<open>get-response-schema\<close> answer ``Method ... not found for path
  ...'' exactly when that value is falsy, and \<^verbatim>\<open>get-examples\<close> in request and response mode
  answers ``Operation ... not found'' exactly when it is falsy. When it is truthy the tools
  go on with that value as the operation: \<^verbatim>\<open>get-endpoint\<close> builds its record from it,
  \<^verbatim>\<open>get-request-body\<close> returns its \<^verbatim>\<open>requestBody\<close> or the ``No request body'' diagnostic,
  \<^verbatim>\<open>get-response-schema\<close> returns its response for the status code when that is truthy and
  the ``No responses'' diagnostic when it has no \<^verbatim>\<open>responses\<close>, and \<^verbatim>\<open>get-examples\<close> answers
  ``No request body'' or ``No responses'' when the value has none.
\<close>

theorem operation_lookup_by_key:
  assumes "get openApiDoc ''paths'' = Inr pathsObj"
    and "pathItem = get_opt pathsObj path"
    and "no_inherited pathItem (toLowerCase method)"
    and "operation = own_prop pathItem (toLowerCase method)"
  shows
    "((get_endpoint openApiDoc path method
        = Inr (Text (''Method '' @ method @ '' not found for path '' @ path)))
       = (\<not> truthy operation))
     \<and> ((get_request_body openApiDoc path method
        = Inr (Text (''Method '' @ method @ '' not found for path '' @ path)))
       = (\<not> truthy operation))
     \<and> ((get_response_schema openApiDoc path method statusCode
        = Inr (Text (''Method '' @ method @ '' not found for path '' @ path)))
       = (\<not> truthy operation))
     \<and> (path \<noteq> [] \<and> method \<noteq> [] \<longrightarrow>
         ((get_examples openApiDoc Request (Some path) (Some method) sc ct cn
            = Inr (Text (''Operation '' @ toUpperCase method @ '' '' @ path @ '' not found'')))
           = (\<not> truthy operation))
         \<and> ((get_examples openApiDoc Response (Some path) (Some method) sc ct cn
            = Inr (Text (''Operation '' @ toUpperCase method @ '' '' @ path @ '' not found'')))
           = (\<not> truthy operation)))
     \<and> (truthy operation \<longrightarrow>
          get_endpoint openApiDoc path method
            = Inr (Yaml (JObj
                [(''path'', JStr path),
                 (''method'', JStr (toUpperCase method)),
                 (''summary'', own_prop operation ''summary''),
                 (''description'', own_prop operation ''description''),
                 (''tags'', own_prop operation ''tags''),
                 (''parameters'', own_prop operation ''parameters''),
                 (''requestBody'', own_prop operation ''requestBody''),
                 (''responses'', own_prop operation ''responses''),
                 (''security'', own_prop operation ''security''),
                 (''deprecated'', own_prop operation ''deprecated'')])))
     \<and> (truthy operation \<longrightarrow>
          get_request_body openApiDoc path method
            = Inr (if truthy (own_prop operation ''requestBody'')
                   then Yaml (own_prop operation ''requestBody'')
                   else Text (''No request body defined for '' @ method @ '' '' @ path)))
     \<and> (truthy operation \<and> \<not> truthy (own_prop operation ''responses'') \<longrightarrow>
          get_response_schema openApiDoc path method statusCode
            = Inr (Text (''No responses defined for '' @ method @ '' '' @ path)))
     \<and> (truthy operation \<and> truthy (own_prop (own_prop operation ''responses'') statusCode) \<longrightarrow>
          get_response_schema openApiDoc path method statusCode
            = Inr (Yaml (own_prop (own_prop operation ''responses'') statusCode)))
     \<and> (path \<noteq> [] \<and> method \<noteq> [] \<and> truthy operation
          \<and> \<not> truthy (get_opt (own_prop operation ''requestBody'') ''content'') \<longrightarrow>
          get_examples openApiDoc Request (Some path) (Some method) sc ct cn
            = Inr (Text (''No request body defined for '' @ toUpperCase method @ '' '' @ path)))
     \<and> (path \<noteq> [] \<and> method \<noteq> [] \<and> truthy operation
          \<and> \<not> truthy (own_prop operation ''responses'') \<longrightarrow>
          get_examples openApiDoc Response (Some path) (Some method) sc ct cn
            = Inr (Text (''No responses defined for '' @ toUpperCase method @ '' '' @ path)))"
proof -
  have item: "truthy pathItem"
    using assms(3) by (cases pathItem) simp_all
  note facts = assms(1) assms(2) [symmetric] assms(4) [symmetric] item
  have e: "(get_endpoint openApiDoc path method
        = Inr (Text (''Method '' @ method @ '' not found for path '' @ path)))
       = (\<not> truthy operation)"
    using facts by (simp add: get_endpoint_def Let_def)
  have b: "(get_request_body openApiDoc path method
        = Inr (Text (''Method '' @ method @ '' not found for path '' @ path)))
       = (\<not> truthy operation)"
    using facts by (simp add: get_request_body_def Let_def)
  have r: "(get_response_schema openApiDoc path method statusCode
        = Inr (Text (''Method '' @ method @ '' not found for path '' @ path)))
       = (\<not> truthy operation)"
    using facts by (simp add: get_response_schema_def Let_def)
  have op: "get_opt pathItem (toLowerCase method) = operation"
    using facts by (simp add: get_opt_def truthy_not_nullish)
  have x1: "(get_examples openApiDoc Request (Some path) (Some method) sc ct cn
            = Inr (Text (''Operation '' @ toUpperCase method @ '' '' @ path @ '' not found'')))
           = (\<not> truthy operation)" if "path \<noteq> []" "method \<noteq> []"
    using facts(1,2) op that
    by (auto simp: get_examples_def request_examples_def Let_def bindE_def split: sum.splits)
  have x2: "(get_examples openApiDoc Response (Some path) (Some method) sc ct cn
            = Inr (Text (''Operation '' @ toUpperCase method @ '' '' @ path @ '' not found'')))
           = (\<not> truthy operation)" if "path \<noteq> []" "method \<noteq> []"
    using facts(1,2) op that
    by (auto simp: get_examples_def response_examples_def examples_of_response_def Let_def
        bindE_def split: sum.splits)
  have y: "truthy operation \<Longrightarrow> get_endpoint openApiDoc path method
            = Inr (Yaml (JObj
                [(''path'', JStr path),
                 (''method'', JStr (toUpperCase method)),
                 (''summary'', own_prop operation ''summary''),
                 (''description'', own_prop operation ''description''),
                 (''tags'', own_prop operation ''tags''),
                 (''parameters'', own_prop operation ''parameters''),
                 (''requestBody'', own_prop operation ''requestBody''),
                 (''responses'', own_prop operation ''responses''),
                 (''security'', own_prop operation ''security''),
                 (''deprecated'', own_prop operation ''deprecated'')]))"
    using facts by (simp add: get_endpoint_def Let_def)
  have b2: "truthy operation \<Longrightarrow> get_request_body openApiDoc path method
            = Inr (if truthy (own_prop operation ''requestBody'')
                   then Yaml (own_prop operation ''requestBody'')
                   else Text (''No request body defined for '' @ method @ '' '' @ path))"
    using facts by (simp add: get_request_body_def Let_def)
  have r2: "truthy operation \<and> \<not> truthy (own_prop operation ''responses'') \<Longrightarrow>
          get_response_schema openApiDoc path method statusCode
            = Inr (Text (''No responses defined for '' @ method @ '' '' @ path))"
    using facts by (simp add: get_response_schema_def Let_def)
  have r3: "truthy operation \<and> truthy (own_prop (own_prop operation ''responses'') statusCode) \<Longrightarrow>
          get_response_schema openApiDoc path method statusCode
            = Inr (Yaml (own_prop (own_prop operation ''responses'') statusCode))"
    using facts truthy_read_truthy [of "own_prop operation ''responses''" statusCode]
    by (simp add: get_response_schema_def Let_def)
  have x3: "get_examples openApiDoc Request (Some path) (Some method) sc ct cn
            = Inr (Text (''No request body defined for '' @ toUpperCase method @ '' '' @ path))"
    if "path \<noteq> []" "method \<noteq> []" "truthy operation"
      "\<not> truthy (get_opt (own_prop operation ''requestBody'') ''content'')"
    using facts(1,2) op that
    by (simp add: get_examples_def request_examples_def Let_def)
  have x4: "get_examples openApiDoc Response (Some path) (Some method) sc ct cn
            = Inr (Text (''No responses defined for '' @ toUpperCase method @ '' '' @ path))"
    if "path \<noteq> []" "method \<noteq> []" "truthy operation" "\<not> truthy (own_prop operation ''responses'')"
    using facts(1,2) op that
    by (simp add: get_examples_def response_examples_def Let_def)
  from e b r x1 x2 y b2 r2 r3 x3 x4 show ?thesis
    by blast
qed

text \<open>
  The theorem at the sample document, path \<^verbatim>\<open>/pets\<close>: the \<^verbatim>\<open>get\<close> operation is found through
  the upper-case argument \<^verbatim>\<open>GET\<close>, and \<^verbatim>\<open>PUT\<close>, which is no key of the Path Item, gets the
  diagnostic.
\<close>

theorem operation_lookup_by_key_witness:
  "no_inherited (get_opt (own_prop doc_shared_parameters ''paths'') ''/pets'') (toLowerCase ''GET'')
   \<and> no_inherited (get_opt (own_prop doc_shared_parameters ''paths'') ''/pets'') (toLowerCase ''PUT'')
   \<and> get_request_body doc_shared_parameters ''/pets'' ''GET''
        = Inr (Text ''No request body defined for GET /pets'')
   \<and> get_endpoint doc_shared_parameters ''/pets'' ''PUT''
        = Inr (Text ''Method PUT not found for path /pets'')"
proof -
  let ?item = "get_opt (own_prop doc_shared_parameters ''paths'') ''/pets''"
  have h1: "get doc_shared_parameters ''paths'' = Inr (own_prop doc_shared_parameters ''paths'')"
    by (simp add: doc_shared_parameters_def get_def)
  have g0: "no_inherited ?item (toLowerCase ''GET'')"
    by (simp add: doc_shared_parameters_def js_eval)
  have p0: "no_inherited ?item (toLowerCase ''PUT'')"
    by (simp add: doc_shared_parameters_def js_eval)
  have g: "truthy (own_prop ?item (toLowerCase ''GET''))"
    "\<not> truthy (own_prop (own_prop ?item (toLowerCase ''GET'')) ''requestBody'')"
    by (simp_all add: doc_shared_parameters_def js_eval)
  have p: "\<not> truthy (own_prop ?item (toLowerCase ''PUT''))"
    by (simp add: doc_shared_parameters_def js_eval)
  from operation_lookup_by_key [OF h1 refl g0 refl] g
  have a: "get_request_body doc_shared_parameters ''/pets'' ''GET''
        = Inr (Text ''No request body defined for GET /pets'')"
    by simp
  from operation_lookup_by_key [OF h1 refl p0 refl] p
  have b: "get_endpoint doc_shared_parameters ''/pets'' ''PUT''
        = Inr (Text ''Method PUT not found for path /pets'')"
    by simp
  from g0 p0 a b show ?thesis by blast
qed

text \<open>
  C1 as stated fails: \<^verbatim>\<open>parameters\<close> is not one of the seven methods, yet on a Path Item
  with shared parameters \<^verbatim>\<open>get-endpoint\<close> answers with an endpoint record for the method
  \<^verbatim>\<open>PARAMETERS\<close>, built from the parameter array, and not with the diagnostic.
\<close>

theorem operation_lookup_counterexample:
  "toLowerCase ''parameters'' \<notin> set http_methods
   \<and> get_endpoint doc_shared_parameters ''/pets'' ''parameters''
       \<noteq> Inr (Text ''Method parameters not found for path /pets'')
   \<and> get_endpoint doc_shared_parameters ''/pets'' ''parameters''
       = Inr (Yaml (JObj
           [(''path'', JStr ''/pets''),
            (''method'', JStr ''PARAMETERS''),
            (''summary'', JUndefined),
            (''description'', JUndefined),
            (''tags'', JUndefined),
            (''parameters'', JUndefined),
            (''requestBody'', JUndefined),
            (''responses'', JUndefined),
            (''security'', JUndefined),
            (''deprecated'', JUndefined)]))"
  by (simp add: get_endpoint_def doc_shared_parameters_def js_eval)

section \<open>Missing data\<close>

text \<open>
  C2 asks every tool to complete on every document. \<^verbatim>\<open>list-endpoints\<close> reads
  \<^verbatim>\<open>operation.summary\<close> without the test for a missing operation that \<^verbatim>\<open>search-schema\<close>
  makes, and throws a TypeError on a Path Item whose \<^verbatim>\<open>get\<close> key maps to \<^verbatim>\<open>null\<close>.
  \<^verbatim>\<open>search-schema\<close> skips a component category that is \<^verbatim>\<open>null\<close> but reads
  \<^verbatim>\<open>component.description\<close> of a component that is \<^verbatim>\<open>null\<close>, and throws as well.
\<close>

theorem missing_data_throws:
  "list_endpoints doc_null_operation = Inl TypeError
   \<and> search_schema substring_RegExp doc_null_component ''order'' = Inl TypeError"
  by (simp add: list_endpoints_def doc_null_operation_def search_schema_def scan_document_def
      doc_null_component_def substring_RegExp_def orE_def js_eval)

section \<open>Single examples\<close>

text \<open>
  C3 on a node with a single \<^verbatim>\<open>example\<close>: the request mode wraps the example as
  \<^verbatim>\<open>{ default: { value: example } }\<close>, the component mode returns \<^verbatim>\<open>{ default: example }\<close>,
  without the \<^verbatim>\<open>value\<close> level.
\<close>

theorem component_example_not_wrapped:
  "get_examples doc_single_example Request (Some ''/pets'') (Some ''post'') None None None
     = Inr (Yaml (JObj [(''application/json'', JObj [(''default'', JObj [(''value'', JStr ''Rex'')])])]))
   \<and> get_examples doc_single_example Component None None None (Some ''schemas'') (Some ''Pet'')
     = Inr (Yaml (JObj [(''default'', JStr ''Rex'')]))"
  by (simp add: get_examples_def request_examples_def component_examples_def
      doc_single_example_def js_eval)

section \<open>Path parameters\<close>

lemma iterate_or_else_shared:
  assumes "v = JArr ps \<or> (\<not> truthy v \<and> ps = [])"
  shows "iterate (or_else v (JArr [])) = Inr ps"
  using assms by (auto simp: or_else_def)

text \<open>
  C5. Take a document that holds the path, and let the Path Item's \<^verbatim>\<open>parameters\<close> be a
  sequence \<open>ps\<close> or missing (then \<open>ps\<close> is empty), and the \<^verbatim>\<open>parameters\<close> of the operation
  that the method argument selects be a sequence \<open>qs\<close> or missing; without a method argument,
  or with one that selects no operation, \<open>qs\<close> is empty. When \<open>ps @ qs\<close> is not empty,
  \<^verbatim>\<open>get-path-parameters\<close> returns a list of \<open>length ps + length qs\<close> entries that starts with
  \<open>ps\<close> and ends with \<open>qs\<close>, nothing merged; when it is empty, the result is the
  ``No parameters found'' diagnostic.
\<close>

theorem path_parameters_concatenation:
  assumes "get openApiDoc ''paths'' = Inr pathsObj"
    and "pathItem = get_opt pathsObj path"
    and "truthy pathItem"
    and "own_prop pathItem ''parameters'' = JArr ps
         \<or> (\<not> truthy (own_prop pathItem ''parameters'') \<and> ps = [])"
    and "operation = (if given method then own_prop pathItem (toLowerCase (the method)) else JUndefined)"
    and "(truthy operation \<and> own_prop operation ''parameters'' = JArr qs)
         \<or> ((\<not> truthy operation \<or> \<not> truthy (own_prop operation ''parameters'')) \<and> qs = [])"
  shows
    "(ps @ qs \<noteq> [] \<longrightarrow>
       (\<exists>params. get_path_parameters openApiDoc path method = Inr (Yaml (JArr params))
          \<and> length params = length ps + length qs
          \<and> take (length ps) params = ps
          \<and> drop (length ps) params = qs))
     \<and> (ps @ qs = [] \<longrightarrow>
       get_path_parameters openApiDoc path method
         = Inr (Text (''No parameters found for ''
             @ (if given method then toUpperCase (the method) @ '' '' else []) @ path)))"
proof -
  have shared: "iterate (or_else (own_prop pathItem ''parameters'') (JArr [])) = Inr ps"
    using assms(4) by (rule iterate_or_else_shared)
  have all: "get_path_parameters openApiDoc path method
      = Inr (if ps @ qs = []
             then Text (''No parameters found for ''
               @ (if given method then toUpperCase (the method) @ '' '' else []) @ path)
             else Yaml (JArr (ps @ qs)))"
    using assms(1,2,3,5,6) shared
    by (auto simp: get_path_parameters_def Let_def)
  show ?thesis
    by (simp add: all)
qed

text \<open>
  The theorem on the sample document: the shared \<^verbatim>\<open>limit\<close> comes first, the \<^verbatim>\<open>limit\<close> of the
  \<^verbatim>\<open>get\<close> operation second, both kept.
\<close>

theorem path_parameters_concatenation_witness:
  "get_path_parameters doc_shared_parameters ''/pets'' (Some ''GET'')
     = Inr (Yaml (JArr
         [JObj [(''name'', JStr ''limit''), (''in'', JStr ''query'')],
          JObj [(''name'', JStr ''limit''), (''in'', JStr ''header'')]]))"
proof -
  let ?item = "get_opt (own_prop doc_shared_parameters ''paths'') ''/pets''"
  let ?ps = "[JObj [(''name'', JStr ''limit''), (''in'', JStr ''query'')]]"
  let ?qs = "[JObj [(''name'', JStr ''limit''), (''in'', JStr ''header'')]]"
  have h1: "get doc_shared_parameters ''paths'' = Inr (own_prop doc_shared_parameters ''paths'')"
    by (simp add: doc_shared_parameters_def get_def)
  have h3: "truthy ?item"
    by (simp add: doc_shared_parameters_def get_opt_def)
  have h4: "own_prop ?item ''parameters'' = JArr ?ps
         \<or> (\<not> truthy (own_prop ?item ''parameters'') \<and> ?ps = [])"
    by (simp add: doc_shared_parameters_def get_opt_def)
  have h6: "(truthy (if given (Some ''GET'') then own_prop ?item (toLowerCase (the (Some ''GET''))) else JUndefined)
       \<and> own_prop (if given (Some ''GET'') then own_prop ?item (toLowerCase (the (Some ''GET''))) else JUndefined)
            ''parameters'' = JArr ?qs)
     \<or> ((\<not> truthy (if given (Some ''GET'') then own_prop ?item (toLowerCase (the (Some ''GET''))) else JUndefined)
          \<or> \<not> truthy (own_prop (if given (Some ''GET'') then own_prop ?item (toLowerCase (the (Some ''GET''))) else JUndefined) ''parameters''))
         \<and> ?qs = [])"
    by (simp add: doc_shared_parameters_def js_eval)
  from path_parameters_concatenation [OF h1 refl h3 h4 refl h6]
  obtain params where
    "get_path_parameters doc_shared_parameters ''/pets'' (Some ''GET'') = Inr (Yaml (JArr params))"
    "take (length ?ps) params = ?ps" "drop (length ?ps) params = ?qs"
    by auto
  then show ?thesis
    by (metis append_take_drop_id append_Cons append_Nil)
qed

text \<open>
  C10. When the method argument selects no operation on a path that the document holds,
  \<^verbatim>\<open>get-path-parameters\<close> does not answer ``Method ... not found'': it returns the shared
  parameters \<open>ps\<close> of the Path Item alone, and when there are none the diagnostic
  ``No parameters found for METHOD path'' with the argument in upper case.
\<close>

theorem unresolved_method_path_parameters:
  assumes "get openApiDoc ''paths'' = Inr pathsObj"
    and "pathItem = get_opt pathsObj path"
    and "truthy pathItem"
    and "own_prop pathItem ''parameters'' = JArr ps
         \<or> (\<not> truthy (own_prop pathItem ''parameters'') \<and> ps = [])"
    and "\<not> truthy (own_prop pathItem (toLowerCase method))"
  shows
    "get_path_parameters openApiDoc path (Some method)
       \<noteq> Inr (Text (''Method '' @ method @ '' not found for path '' @ path))
     \<and> get_path_parameters openApiDoc path (Some method)
       = Inr (if ps = []
              then Text (''No parameters found for ''
                     @ (if method = [] then [] else toUpperCase method @ '' '') @ path)
              else Yaml (JArr ps))"
proof -
  have shared: "iterate (or_else (own_prop pathItem ''parameters'') (JArr [])) = Inr ps"
    using assms(4) by (rule iterate_or_else_shared)
  have all: "get_path_parameters openApiDoc path (Some method)
       = Inr (if ps = []
              then Text (''No parameters found for ''
                     @ (if method = [] then [] else toUpperCase method @ '' '') @ path)
              else Yaml (JArr ps))"
    using assms(1,2,3,5) shared
    by (auto simp: get_path_parameters_def Let_def)
  show ?thesis
    by (simp add: all)
qed

text \<open>
  The theorem at the method \<^verbatim>\<open>put\<close>, on a path with a shared parameter and on a path
  without one.
\<close>

theorem unresolved_method_path_parameters_witness:
  "get_path_parameters doc_shared_parameters ''/pets'' (Some ''put'')
     = Inr (Yaml (JArr [JObj [(''name'', JStr ''limit''), (''in'', JStr ''query'')]]))
   \<and> get_path_parameters doc_unordered_responses ''/pets'' (Some ''put'')
     = Inr (Text ''No parameters found for PUT /pets'')"
proof -
  let ?item = "get_opt (own_prop doc_shared_parameters ''paths'') ''/pets''"
  let ?ps = "[JObj [(''name'', JStr ''limit''), (''in'', JStr ''query'')]]"
  have h1: "get doc_shared_parameters ''paths'' = Inr (own_prop doc_shared_parameters ''paths'')"
    by (simp add: doc_shared_parameters_def get_def)
  have h3: "truthy ?item"
    by (simp add: doc_shared_parameters_def get_opt_def)
  have h4: "own_prop ?item ''parameters'' = JArr ?ps
         \<or> (\<not> truthy (own_prop ?item ''parameters'') \<and> ?ps = [])"
    by (simp add: doc_shared_parameters_def get_opt_def)
  have h5: "\<not> truthy (own_prop ?item (toLowerCase ''put''))"
    by (simp add: doc_shared_parameters_def js_eval)
  let ?item2 = "get_opt (own_prop doc_unordered_responses ''paths'') ''/pets''"
  have k1: "get doc_unordered_responses ''paths'' = Inr (own_prop doc_unordered_responses ''paths'')"
    by (simp add: doc_unordered_responses_def get_def)
  have k3: "truthy ?item2"
    by (simp add: doc_unordered_responses_def get_opt_def)
  have k4: "own_prop ?item2 ''parameters'' = JArr []
         \<or> (\<not> truthy (own_prop ?item2 ''parameters'') \<and> [] = ([] :: jsval list))"
    by (simp add: doc_unordered_responses_def get_opt_def)
  have k5: "\<not> truthy (own_prop ?item2 (toLowerCase ''put''))"
    by (simp add: doc_unordered_responses_def js_eval)
  have u: "toUpperCase ''put'' = ''PUT''"
    by (simp add: js_eval)
  from unresolved_method_path_parameters [OF h1 refl h3 h4 h5]
       unresolved_method_path_parameters [OF k1 refl k3 k4 k5] u
  show ?thesis
    by simp
qed

section \<open>Key order\<close>

lemma set_ordered_keys [simp]: "set (ordered_keys ks) = set ks"
  by (auto simp: ordered_keys_def)

lemma length_ordered_keys [simp]: "length (ordered_keys ks) = length ks"
  by (simp add: ordered_keys_def sum_length_filter_compl)

lemma ordered_keys_no_index:
  "\<forall>k \<in> set ks. \<not> is_array_index k \<Longrightarrow> ordered_keys ks = ks"
  by (simp add: ordered_keys_def filter_empty_conv)

lemma hd_sort_key_least:
  assumes "x \<in> set xs"
  shows "hd (sort_key f xs) \<in> set xs \<and> f (hd (sort_key f xs)) \<le> f x"
proof -
  have ne: "sort_key f xs \<noteq> []"
    using assms by (metis empty_iff list.set(1) set_sort)
  then obtain y ys where ys: "sort_key f xs = y # ys"
    by (cases "sort_key f xs") auto
  have "sorted (map f (y # ys))"
    using sorted_sort_key [of f xs] by (simp add: ys)
  moreover have "x \<in> set (y # ys)"
    using assms by (metis ys set_sort)
  ultimately have "f y \<le> f x"
    by auto
  moreover have "y \<in> set xs"
    by (metis ys list.set_intros(1) set_sort)
  ultimately show ?thesis
    by (simp add: ys)
qed

lemma hd_ordered_keys_index:
  assumes "k \<in> set ks" "is_array_index k"
  shows "is_array_index (hd (ordered_keys ks))
    \<and> hd (ordered_keys ks) \<in> set ks
    \<and> parse_nat (hd (ordered_keys ks)) \<le> parse_nat k"
proof -
  have k: "k \<in> set (filter is_array_index ks)"
    using assms by simp
  then have ne: "sort_key parse_nat (filter is_array_index ks) \<noteq> []"
    by (metis empty_iff list.set(1) set_sort)
  then have h: "hd (ordered_keys ks) = hd (sort_key parse_nat (filter is_array_index ks))"
    by (simp add: ordered_keys_def)
  from hd_sort_key_least [OF k, of parse_nat] show ?thesis
    by (simp add: h)
qed

lemma own_prop_absent: "k \<notin> set (map fst kvs) \<Longrightarrow> own_prop (JObj kvs) k = JUndefined"
  by (simp add: map_of_eq_None_iff [THEN iffD2] image_iff)

section \<open>Response fallback\<close>

text \<open>
  C4, as the code has it. Take an operation whose \<^verbatim>\<open>responses\<close> is a mapping without the key
  \<open>statusCode\<close>, where \<open>statusCode\<close> names no member of \<^verbatim>\<open>Object.prototype\<close> either.
  \<^verbatim>\<open>get-response-schema\<close> returns the \<^verbatim>\<open>default\<close> response when the mapping has one (with a
  truthy value). Otherwise, and so whenever the key \<^verbatim>\<open>default\<close> is missing too, it returns
  the diagnostic that lists the keys of the mapping joined by a comma and a space, in the
  order of \<^verbatim>\<open>Object.keys\<close>: the array-index keys in ascending numeric order, then the other
  keys in document order. The list has exactly the keys of the mapping, and it is the document
  order when no key is an array index.
\<close>

theorem response_fallback_and_available_codes:
  assumes "get openApiDoc ''paths'' = Inr pathsObj"
    and "truthy (get_opt pathsObj path)"
    and "operation = own_prop (get_opt pathsObj path) (toLowerCase method)"
    and "truthy operation"
    and "own_prop operation ''responses'' = JObj kvs"
    and "statusCode \<notin> set (map fst kvs)"
    and "statusCode \<notin> set object_prototype_members"
  shows
    "get_response_schema openApiDoc path method statusCode
       = Inr (if truthy (own_prop (JObj kvs) ''default'')
              then Yaml (own_prop (JObj kvs) ''default'')
              else Text (''No response for status code '' @ statusCode
                 @ '' (or default) found for '' @ method @ '' '' @ path @ ''.'' @ [CHR 0x0A]
                 @ ''Available status codes: ''
                 @ join '', ''
                     (sort_key parse_nat (filter is_array_index (map fst kvs))
                      @ filter (\<lambda>k. \<not> is_array_index k) (map fst kvs))))
     \<and> (''default'' \<notin> set (map fst kvs) \<longrightarrow> \<not> truthy (own_prop (JObj kvs) ''default''))
     \<and> set (sort_key parse_nat (filter is_array_index (map fst kvs))
            @ filter (\<lambda>k. \<not> is_array_index k) (map fst kvs)) = set (map fst kvs)
     \<and> ((\<forall>k \<in> set (map fst kvs). \<not> is_array_index k) \<longrightarrow>
          sort_key parse_nat (filter is_array_index (map fst kvs))
            @ filter (\<lambda>k. \<not> is_array_index k) (map fst kvs) = map fst kvs)"
proof -
  have absent: "own_prop (JObj kvs) statusCode = JUndefined"
    using assms(6) by (rule own_prop_absent)
  have main: "get_response_schema openApiDoc path method statusCode
       = Inr (if truthy (own_prop (JObj kvs) ''default'')
              then Yaml (own_prop (JObj kvs) ''default'')
              else Text (''No response for status code '' @ statusCode
                 @ '' (or default) found for '' @ method @ '' '' @ path @ ''.'' @ [CHR 0x0A]
                 @ ''Available status codes: '' @ join '', '' (ordered_keys (map fst kvs))))"
    using assms(1-5) absent
    by (simp add: get_response_schema_def Let_def del: own_prop.simps)
  have d: "''default'' \<notin> set (map fst kvs) \<Longrightarrow> \<not> truthy (own_prop (JObj kvs) ''default'')"
    by (simp add: own_prop_absent del: own_prop.simps)
  have s: "set (ordered_keys (map fst kvs)) = set (map fst kvs)"
    by simp
  have o: "\<forall>k \<in> set (map fst kvs). \<not> is_array_index k \<Longrightarrow> ordered_keys (map fst kvs) = map fst kvs"
    by (rule ordered_keys_no_index)
  from main d s o show ?thesis
    unfolding ordered_keys_def by blast
qed

text \<open>
  The theorem on two sample documents: a request for \<^verbatim>\<open>404\<close> falls back to the \<^verbatim>\<open>default\<close>
  response, and a request for \<^verbatim>\<open>500\<close> where there is no \<^verbatim>\<open>default\<close> lists the codes.
\<close>

theorem response_fallback_and_available_codes_witness:
  "get_response_schema doc_default_response ''/pets'' ''get'' ''404''
     = Inr (Yaml (JObj [(''description'', JStr ''unexpected error'')]))
   \<and> get_response_schema doc_unordered_responses ''/pets'' ''get'' ''500''
     = Inr (Text (''No response for status code 500 (or default) found for get /pets.''
         @ [CHR 0x0A] @ ''Available status codes: 200, 404''))"
proof -
  let ?kvs = "[(''default'', JObj [(''description'', JStr ''unexpected error'')]),
        (''200'', JObj [(''content'', JObj
           [(''application/json'', JObj [(''example'', JStr ''found'')])])])]"
  let ?kvs2 = "[(''404'', JObj [(''content'', JObj
           [(''application/json'', JObj [(''example'', JStr ''missing'')])])]),
        (''200'', JObj [(''content'', JObj
           [(''application/json'', JObj [(''example'', JStr ''found'')])])])]"
  have h1: "get doc_default_response ''paths'' = Inr (own_prop doc_default_response ''paths'')"
    by (simp add: doc_default_response_def get_def)
  have h2: "truthy (get_opt (own_prop doc_default_response ''paths'') ''/pets'')"
    by (simp add: doc_default_response_def get_opt_def)
  have h4: "truthy (own_prop (get_opt (own_prop doc_default_response ''paths'') ''/pets'')
              (toLowerCase ''get''))"
    by (simp add: doc_default_response_def js_eval)
  have h5: "own_prop (own_prop (get_opt (own_prop doc_default_response ''paths'') ''/pets'')
              (toLowerCase ''get'')) ''responses'' = JObj ?kvs"
    by (simp add: doc_default_response_def js_eval)
  have h6: "''404'' \<notin> set (map fst ?kvs)"
    by simp
  have k1: "get doc_unordered_responses ''paths'' = Inr (own_prop doc_unordered_responses ''paths'')"
    by (simp add: doc_unordered_responses_def get_def)
  have k2: "truthy (get_opt (own_prop doc_unordered_responses ''paths'') ''/pets'')"
    by (simp add: doc_unordered_responses_def get_opt_def)
  have k4: "truthy (own_prop (get_opt (own_prop doc_unordered_responses ''paths'') ''/pets'')
              (toLowerCase ''get''))"
    by (simp add: doc_unordered_responses_def js_eval)
  have k5: "own_prop (own_prop (get_opt (own_prop doc_unordered_responses ''paths'') ''/pets'')
              (toLowerCase ''get'')) ''responses'' = JObj ?kvs2"
    by (simp add: doc_unordered_responses_def js_eval)
  have k6: "''500'' \<notin> set (map fst ?kvs2)"
    by simp
  have h7: "''404'' \<notin> set object_prototype_members"
    and k7: "''500'' \<notin> set object_prototype_members"
    by (simp_all add: object_prototype_members_def)
  from response_fallback_and_available_codes [OF h1 h2 refl h4 h5 h6 h7]
  have a: "get_response_schema doc_default_response ''/pets'' ''get'' ''404''
     = Inr (Yaml (JObj [(''description'', JStr ''unexpected error'')]))"
    by simp
  from response_fallback_and_available_codes [OF k1 k2 refl k4 k5 k6 k7]
  have b: "get_response_schema doc_unordered_responses ''/pets'' ''get'' ''500''
     = Inr (Text (''No response for status code 500 (or default) found for get /pets.''
         @ [CHR 0x0A] @ ''Available status codes: 200, 404''))"
    by (simp add: js_eval)
  from a b show ?thesis by blast
qed

text \<open>
  C4 as stated fails on the order of the list: the sample document defines \<^verbatim>\<open>404\<close> before
  \<^verbatim>\<open>200\<close>, and the diagnostic lists \<^verbatim>\<open>200, 404\<close>.
\<close>

theorem available_codes_counterexample:
  "get_response_schema doc_unordered_responses ''/pets'' ''get'' ''500''
     \<noteq> Inr (Text (''No response for status code 500 (or default) found for get /pets.''
         @ [CHR 0x0A] @ ''Available status codes: 404, 200''))
   \<and> get_response_schema doc_unordered_responses ''/pets'' ''get'' ''500''
     = Inr (Text (''No response for status code 500 (or default) found for get /pets.''
         @ [CHR 0x0A] @ ''Available status codes: 200, 404''))"
  by (simp add: get_response_schema_def doc_unordered_responses_def js_eval)

section \<open>The response selected without a status code\<close>

text \<open>
  C8, as the code has it. Take an operation whose \<^verbatim>\<open>responses\<close> is a non-empty mapping.
  Without a \<open>statusCode\<close>, \<^verbatim>\<open>get-examples\<close> in response mode continues with the value of the
  first key in the order of \<^verbatim>\<open>Object.values\<close>: that key is the numerically least array-index
  key (status codes such as \<^verbatim>\<open>200\<close> and \<^verbatim>\<open>404\<close>) when the mapping has one, and the first key
  in document order only when it has none.
\<close>

theorem first_response_in_key_order:
  assumes "get openApiDoc ''paths'' = Inr pathsObj"
    and "path \<noteq> []" and "method \<noteq> []"
    and "operation = get_opt (get_opt pathsObj path) (toLowerCase method)"
    and "truthy operation"
    and "own_prop operation ''responses'' = JObj kvs"
    and "kvs \<noteq> []"
    and "first = hd (sort_key parse_nat (filter is_array_index (map fst kvs))
                     @ filter (\<lambda>k. \<not> is_array_index k) (map fst kvs))"
  shows
    "get_examples openApiDoc Response (Some path) (Some method) None ct cn
       = (if truthy (own_prop (JObj kvs) first)
          then examples_of_response (own_prop (JObj kvs) first) path method None
          else Inr (Text (''Response undefined not found for '' @ toUpperCase method @ '' '' @ path
                 @ ''. Available: ''
                 @ join '', ''
                     (sort_key parse_nat (filter is_array_index (map fst kvs))
                      @ filter (\<lambda>k. \<not> is_array_index k) (map fst kvs)))))
     \<and> first \<in> set (map fst kvs)
     \<and> ((\<forall>k \<in> set (map fst kvs). \<not> is_array_index k) \<longrightarrow> first = fst (hd kvs))
     \<and> (\<forall>k \<in> set (map fst kvs). is_array_index k \<longrightarrow>
           is_array_index first \<and> parse_nat first \<le> parse_nat k)"
proof -
  have f: "first = hd (ordered_keys (map fst kvs))"
    by (simp add: assms(8) ordered_keys_def)
  have ne: "ordered_keys (map fst kvs) \<noteq> []"
    using assms(7) by (metis length_ordered_keys length_0_conv map_is_Nil_conv)
  then obtain k ks where ks: "ordered_keys (map fst kvs) = k # ks"
    by (cases "ordered_keys (map fst kvs)") auto
  have fk: "first = k"
    by (simp add: f ks)
  have main: "get_examples openApiDoc Response (Some path) (Some method) None ct cn
       = (if truthy (own_prop (JObj kvs) first)
          then examples_of_response (own_prop (JObj kvs) first) path method None
          else Inr (Text (''Response undefined not found for '' @ toUpperCase method @ '' '' @ path
                 @ ''. Available: '' @ join '', '' (ordered_keys (map fst kvs)))))"
    using assms(1-6) ks fk
    by (simp add: get_examples_def response_examples_def Let_def del: own_prop.simps)
  have mem: "first \<in> set (map fst kvs)"
    by (metis fk ks list.set_intros(1) set_ordered_keys)
  have doc: "\<forall>k \<in> set (map fst kvs). \<not> is_array_index k \<Longrightarrow> first = fst (hd kvs)"
    using assms(7) by (simp add: f ordered_keys_no_index hd_map)
  have least: "\<forall>k \<in> set (map fst kvs). is_array_index k \<longrightarrow>
           is_array_index first \<and> parse_nat first \<le> parse_nat k"
    using hd_ordered_keys_index [of _ "map fst kvs"] by (simp add: f)
  from main mem doc least show ?thesis
    unfolding ordered_keys_def by blast
qed

text \<open>
  The theorem on a sample document that defines \<^verbatim>\<open>default\<close> before \<^verbatim>\<open>200\<close>: the examples come
  from the \<^verbatim>\<open>200\<close> response.
\<close>

theorem first_response_in_key_order_witness:
  "get_examples doc_default_response Response (Some ''/pets'') (Some ''get'') None None None
     = Inr (Yaml (JObj [(''application/json'', JObj [(''default'', JObj [(''value'', JStr ''found'')])])]))"
proof -
  let ?kvs = "[(''default'', JObj [(''description'', JStr ''unexpected error'')]),
        (''200'', JObj [(''content'', JObj
           [(''application/json'', JObj [(''example'', JStr ''found'')])])])]"
  let ?op = "get_opt (get_opt (own_prop doc_default_response ''paths'') ''/pets'') (toLowerCase ''get'')"
  have h1: "get doc_default_response ''paths'' = Inr (own_prop doc_default_response ''paths'')"
    by (simp add: doc_default_response_def get_def)
  have h2: "''/pets'' \<noteq> []" and h3: "''get'' \<noteq> []"
    by simp_all
  have h5: "truthy ?op"
    by (simp add: doc_default_response_def js_eval)
  have h6: "own_prop ?op ''responses'' = JObj ?kvs"
    by (simp add: doc_default_response_def js_eval)
  have h7: "?kvs \<noteq> []"
    by simp
  have first: "hd (sort_key parse_nat (filter is_array_index (map fst ?kvs))
                     @ filter (\<lambda>k. \<not> is_array_index k) (map fst ?kvs)) = ''200''"
    by (simp add: js_eval)
  from first_response_in_key_order [OF h1 h2 h3 refl h5 h6 h7 refl, of None None]
  show ?thesis
    unfolding first by (simp add: examples_of_response_def js_eval)
qed

text \<open>
  C8 as stated fails: the sample document defines \<^verbatim>\<open>404\<close> before \<^verbatim>\<open>200\<close>. The first response
  in document order is \<^verbatim>\<open>404\<close>, whose example is \<^verbatim>\<open>missing\<close>; without a status code the
  tool returns the example \<^verbatim>\<open>found\<close> of the \<^verbatim>\<open>200\<close> response.
\<close>

theorem first_response_counterexample:
  "get_examples doc_unordered_responses Response (Some ''/pets'') (Some ''get'') (Some ''404'') None None
     = Inr (Yaml (JObj [(''application/json'', JObj [(''default'', JObj [(''value'', JStr ''missing'')])])]))
   \<and> get_examples doc_unordered_responses Response (Some ''/pets'') (Some ''get'') None None None
     \<noteq> Inr (Yaml (JObj [(''application/json'', JObj [(''default'', JObj [(''value'', JStr ''missing'')])])]))
   \<and> get_examples doc_unordered_responses Response (Some ''/pets'') (Some ''get'') None None None
     = Inr (Yaml (JObj [(''application/json'', JObj [(''default'', JObj [(''value'', JStr ''found'')])])]))"
  by (simp add: get_examples_def response_examples_def examples_of_response_def
      doc_unordered_responses_def js_eval)

section \<open>Search\<close>

subsection \<open>The shape of the result\<close>

lemma map_of_Some_own_key:
  assumes "map_of kvs k = Some v"
  shows "k \<in> set (own_keys (JObj kvs))"
proof -
  have "(k, v) \<in> set kvs"
    using assms by (rule map_of_SomeD)
  then have "k \<in> fst ` set kvs"
    by force
  then show ?thesis
    by simp
qed

lemma map_of_kept:
  assumes "distinct (map fst es)" and "(k, xs) \<in> set es"
  shows "map_of (map (\<lambda>(key, xs). (key, g xs)) (filter (\<lambda>(key, xs). P xs) es)) k
           = (if P xs then Some (g xs) else None)"
  using assms
proof (induction es)
  case Nil
  then show ?case by simp
next
  case (Cons e es)
  obtain k' xs' where e: "e = (k', xs')"
    by (cases e)
  show ?case
  proof (cases "k' = k")
    case True
    with Cons.prems have x: "xs' = xs"
      by (auto simp: e image_iff)
    have "k \<notin> fst ` set es"
      using Cons.prems(1) True by (simp add: e)
    then have "map_of (map (\<lambda>(key, xs). (key, g xs)) (filter (\<lambda>(key, xs). P xs) es)) k = None"
      by (force simp: map_of_eq_None_iff image_iff)
    then show ?thesis
      by (simp add: e True x)
  next
    case False
    with Cons.prems have "(k, xs) \<in> set es" "distinct (map fst es)"
      by (auto simp: e)
    from Cons.IH [OF this(2) this(1)] False show ?thesis
      by (simp add: e)
  qed
qed

lemma distinct_result_entries: "distinct (map fst (result_entries r))"
  by (simp add: result_entries_def)

lemma clean_up_empty:
  "(length (clean_up r) = 0)
     = (paths r = [] \<and> operations r = [] \<and> components r = [] \<and> parameters r = []
        \<and> securitySchemes r = [])"
  by (simp add: clean_up_def result_entries_def filter_empty_conv)

lemma kept_lookup:
  assumes "(k, xs) \<in> set (result_entries r)"
  shows "map_of (map (\<lambda>(key, xs). (key, JArr (map JStr xs))) (clean_up r)) k
           = (if xs = [] then None else Some (JArr (map JStr xs)))"
  using map_of_kept [OF distinct_result_entries assms, of "\<lambda>xs. JArr (map JStr xs)" "\<lambda>xs. length xs \<noteq> 0"]
  by (simp add: clean_up_def)

lemma kept_keys:
  "set (map fst (map (\<lambda>(key, xs). (key, JArr (map JStr xs))) (clean_up r)))
     \<subseteq> {''paths'', ''operations'', ''components'', ''parameters'', ''securitySchemes''}"
proof -
  have "set (map fst (map (\<lambda>(key, xs). (key, JArr (map JStr xs))) (clean_up r)))
          \<subseteq> set (map fst (result_entries r))"
    by (force simp: clean_up_def)
  then show ?thesis
    by (simp add: result_entries_def)
qed

lemmas search_eval =
  scan_document_def substring_RegExp_def orE_def regex_test_def doc_security_def js_eval

text \<open>
  C6. Let the pattern compile and the scan of the document end with the match lists \<open>r\<close>.
  When all five lists are empty, the result of \<^verbatim>\<open>search-schema\<close> is the one sentence
  ``No matches found for "pattern"''. Otherwise it is a mapping whose keys are among the five
  category names, and each category is a key of it exactly when its list is not empty, with
  the list as its value.
\<close>

theorem search_omits_empty_categories:
  assumes "RegExp pattern = Some test"
    and "scan_document test openApiDoc = Inr r"
  shows
    "(paths r = [] \<and> operations r = [] \<and> components r = [] \<and> parameters r = []
        \<and> securitySchemes r = [] \<longrightarrow>
       search_schema RegExp openApiDoc pattern
         = Inr (Text (''No matches found for '' @ [CHR 0x22] @ pattern @ [CHR 0x22])))
     \<and> (\<not> (paths r = [] \<and> operations r = [] \<and> components r = [] \<and> parameters r = []
        \<and> securitySchemes r = []) \<longrightarrow>
       (\<exists>kvs. search_schema RegExp openApiDoc pattern = Inr (Yaml (JObj kvs))
          \<and> set (map fst kvs)
              \<subseteq> {''paths'', ''operations'', ''components'', ''parameters'', ''securitySchemes''}
          \<and> map_of kvs ''paths''
              = (if paths r = [] then None else Some (JArr (map JStr (paths r))))
          \<and> map_of kvs ''operations''
              = (if operations r = [] then None else Some (JArr (map JStr (operations r))))
          \<and> map_of kvs ''components''
              = (if components r = [] then None else Some (JArr (map JStr (components r))))
          \<and> map_of kvs ''parameters''
              = (if parameters r = [] then None else Some (JArr (map JStr (parameters r))))
          \<and> map_of kvs ''securitySchemes''
              = (if securitySchemes r = [] then None
                 else Some (JArr (map JStr (securitySchemes r))))))"
proof -
  let ?kvs = "map (\<lambda>(key, xs). (key, JArr (map JStr xs))) (clean_up r)"
  have s: "search_schema RegExp openApiDoc pattern = Inr (render_results r pattern)"
    using assms by (simp add: search_schema_def)
  have none: "search_schema RegExp openApiDoc pattern
         = Inr (Text (''No matches found for '' @ [CHR 0x22] @ pattern @ [CHR 0x22]))"
    if "paths r = [] \<and> operations r = [] \<and> components r = [] \<and> parameters r = []
        \<and> securitySchemes r = []"
    using that clean_up_empty [of r] by (simp add: s render_results_def Let_def)
  have some: "search_schema RegExp openApiDoc pattern = Inr (Yaml (JObj ?kvs))"
    if "\<not> (paths r = [] \<and> operations r = [] \<and> components r = [] \<and> parameters r = []
        \<and> securitySchemes r = [])"
    using that clean_up_empty [of r] by (simp add: s render_results_def Let_def)
  have k1: "map_of ?kvs ''paths'' = (if paths r = [] then None else Some (JArr (map JStr (paths r))))"
    by (rule kept_lookup) (simp add: result_entries_def)
  have k2: "map_of ?kvs ''operations''
      = (if operations r = [] then None else Some (JArr (map JStr (operations r))))"
    by (rule kept_lookup) (simp add: result_entries_def)
  have k3: "map_of ?kvs ''components''
      = (if components r = [] then None else Some (JArr (map JStr (components r))))"
    by (rule kept_lookup) (simp add: result_entries_def)
  have k4: "map_of ?kvs ''parameters''
      = (if parameters r = [] then None else Some (JArr (map JStr (parameters r))))"
    by (rule kept_lookup) (simp add: result_entries_def)
  have k5: "map_of ?kvs ''securitySchemes''
      = (if securitySchemes r = [] then None else Some (JArr (map JStr (securitySchemes r))))"
    by (rule kept_lookup) (simp add: result_entries_def)
  from none some k1 k2 k3 k4 k5 kept_keys [of r] show ?thesis
    by blast
qed

text \<open>
  The theorem on a sample document with one security scheme: \<^verbatim>\<open>pet\<close> matches nothing, and
  \<^verbatim>\<open>API\<close> leaves the two categories that have a match.
\<close>

theorem search_omits_empty_categories_witness:
  "search_schema substring_RegExp doc_security ''pet''
     = Inr (Text (''No matches found for '' @ [CHR 0x22] @ ''pet'' @ [CHR 0x22]))
   \<and> (\<exists>kvs. search_schema substring_RegExp doc_security ''API'' = Inr (Yaml (JObj kvs))
         \<and> map_of kvs ''paths'' = None
         \<and> map_of kvs ''operations'' = None
         \<and> map_of kvs ''components'' = Some (JArr [JStr ''securitySchemes.apiKeyAuth''])
         \<and> map_of kvs ''parameters'' = None
         \<and> map_of kvs ''securitySchemes'' = Some (JArr [JStr ''apiKeyAuth'']))"
proof -
  let ?pet = "\<lambda>s. contains (toLowerCase ''pet'') (toLowerCase s)"
  let ?api = "\<lambda>s. contains (toLowerCase ''API'') (toLowerCase s)"
  have p1: "substring_RegExp ''pet'' = Some ?pet"
    by (simp add: substring_RegExp_def)
  have p2: "scan_document ?pet doc_security
      = Inr \<lparr>paths = [], operations = [], components = [], parameters = [], securitySchemes = []\<rparr>"
    by (simp add: search_eval)
  have a1: "substring_RegExp ''API'' = Some ?api"
    by (simp add: substring_RegExp_def)
  have a2: "scan_document ?api doc_security
      = Inr \<lparr>paths = [], operations = [], components = [''securitySchemes.apiKeyAuth''],
             parameters = [], securitySchemes = [''apiKeyAuth'']\<rparr>"
    by (simp add: search_eval)
  from search_omits_empty_categories [where RegExp = substring_RegExp and pattern = "''pet''", OF p1 p2]
  have a: "search_schema substring_RegExp doc_security ''pet''
     = Inr (Text (''No matches found for '' @ [CHR 0x22] @ ''pet'' @ [CHR 0x22]))"
    by simp
  from search_omits_empty_categories [where RegExp = substring_RegExp and pattern = "''API''", OF a1 a2]
  have b: "\<exists>kvs. search_schema substring_RegExp doc_security ''API'' = Inr (Yaml (JObj kvs))
         \<and> map_of kvs ''paths'' = None
         \<and> map_of kvs ''operations'' = None
         \<and> map_of kvs ''components'' = Some (JArr [JStr ''securitySchemes.apiKeyAuth''])
         \<and> map_of kvs ''parameters'' = None
         \<and> map_of kvs ''securitySchemes'' = Some (JArr [JStr ''apiKeyAuth''])"
    by simp blast
  from a b show ?thesis by blast
qed

subsection \<open>What the scans record\<close>

lemma bindE_eq_Inr: "bindE m f = Inr y \<longleftrightarrow> (\<exists>x. m = Inr x \<and> f x = Inr y)"
  by (cases m) simp_all

lemma description_hit:
  assumes "test name \<or> (case own_prop v ''description'' of JStr d \<Rightarrow> test d | _ \<Rightarrow> False)"
  shows "orE (Inr (test name))
           (bindE (get v ''description'') (\<lambda>d. regex_test test (or_else d (JStr []))))
         = Inr True"
proof (cases "test name")
  case True
  then show ?thesis by (simp add: orE_def)
next
  case False
  with assms obtain d where d: "own_prop v ''description'' = JStr d" "test d"
    by (auto split: jsval.splits)
  then have "\<not> nullish v"
    by (cases v) auto
  with d False show ?thesis
    by (auto simp: orE_def get_def or_else_def regex_test_def)
qed

lemma scan_category_result:
  "scan_category test type es r = Inr r' \<Longrightarrow>
     set (components r) \<subseteq> set (components r')
     \<and> (\<forall>(name, c) \<in> set es.
          (test name \<or> (case own_prop c ''description'' of JStr d \<Rightarrow> test d | _ \<Rightarrow> False))
          \<longrightarrow> type @ ''.'' @ name \<in> set (components r'))"
proof (induction es arbitrary: r)
  case Nil
  then show ?case by simp
next
  case (Cons e es)
  obtain name c where e: "e = (name, c)"
    by (cases e)
  let ?hit = "orE (Inr (test name))
           (bindE (get c ''description'') (\<lambda>d. regex_test test (or_else d (JStr []))))"
  from Cons.prems obtain h where h: "?hit = Inr h"
    and rest: "scan_category test type es
           (if h then r\<lparr>components := components r @ [type @ ''.'' @ name]\<rparr> else r) = Inr r'"
    by (auto simp: e bindE_eq_Inr)
  from Cons.IH [OF rest]
  have sub: "set (components (if h then r\<lparr>components := components r @ [type @ ''.'' @ name]\<rparr> else r))
               \<subseteq> set (components r')"
    and tl: "\<forall>(name, c) \<in> set es.
          (test name \<or> (case own_prop c ''description'' of JStr d \<Rightarrow> test d | _ \<Rightarrow> False))
          \<longrightarrow> type @ ''.'' @ name \<in> set (components r')"
    by blast+
  have old: "set (components r) \<subseteq> set (components r')"
    using sub by (auto split: if_splits)
  have hd: "type @ ''.'' @ name \<in> set (components r')"
    if "test name \<or> (case own_prop c ''description'' of JStr d \<Rightarrow> test d | _ \<Rightarrow> False)"
  proof -
    from description_hit [OF that] h have "h" by simp
    with sub show ?thesis by auto
  qed
  from old hd tl show ?case
    by (auto simp: e)
qed

lemma scan_components_result:
  "scan_components test es r = Inr r' \<Longrightarrow>
     set (components r) \<subseteq> set (components r')
     \<and> (\<forall>(type, typeObj) \<in> set es. \<forall>items name c.
          typeObj = JObj items \<and> map_of items name = Some c
          \<and> (test name \<or> (case own_prop c ''description'' of JStr d \<Rightarrow> test d | _ \<Rightarrow> False))
          \<longrightarrow> type @ ''.'' @ name \<in> set (components r'))"
proof (induction es arbitrary: r)
  case Nil
  then show ?case by simp
next
  case (Cons e es)
  obtain type typeObj where e: "e = (type, typeObj)"
    by (cases e)
  show ?case
  proof (cases "\<not> truthy typeObj \<or> \<not> is_object typeObj")
    case True
    with Cons.prems have "scan_components test es r = Inr r'"
      by (simp add: e)
    from Cons.IH [OF this] True show ?thesis
      by (auto simp: e)
  next
    case False
    with Cons.prems obtain r1 where
      cat: "scan_category test type (map (\<lambda>k. (k, own_prop typeObj k)) (own_keys typeObj)) r = Inr r1"
      and rest: "scan_components test es r1 = Inr r'"
      by (auto simp: e bindE_eq_Inr)
    note c1 = scan_category_result [OF cat]
    note c2 = Cons.IH [OF rest]
    have old: "set (components r) \<subseteq> set (components r')"
      using c1 c2 by blast
    have hd: "type @ ''.'' @ name \<in> set (components r')"
      if "typeObj = JObj items" "map_of items name = Some c"
        "test name \<or> (case own_prop c ''description'' of JStr d \<Rightarrow> test d | _ \<Rightarrow> False)"
      for items name c
    proof -
      have "name \<in> set (map fst items)"
        using that(2) by (metis map_of_eq_None_iff option.distinct(1) set_map)
      then have "(name, c) \<in> set (map (\<lambda>k. (k, own_prop typeObj k)) (own_keys typeObj))"
        using that(1,2) by (auto simp: image_iff)
      with c1 that(3) have "type @ ''.'' @ name \<in> set (components r1)"
        by blast
      with c2 show ?thesis by blast
    qed
    from old hd c2 show ?thesis
      by (auto simp: e)
  qed
qed

lemma scan_schemes_result:
  "scan_schemes test es r = Inr r' \<Longrightarrow>
     components r' = components r
     \<and> set (securitySchemes r) \<subseteq> set (securitySchemes r')
     \<and> (\<forall>(name, s) \<in> set es.
          (test name \<or> (case own_prop s ''description'' of JStr d \<Rightarrow> test d | _ \<Rightarrow> False))
          \<longrightarrow> name \<in> set (securitySchemes r'))"
proof (induction es arbitrary: r)
  case Nil
  then show ?case by simp
next
  case (Cons e es)
  obtain name s where e: "e = (name, s)"
    by (cases e)
  let ?hit = "orE (Inr (test name))
           (bindE (get s ''description'') (\<lambda>d. regex_test test (or_else d (JStr []))))"
  from Cons.prems obtain h where h: "?hit = Inr h"
    and rest: "scan_schemes test es
           (if h then r\<lparr>securitySchemes := securitySchemes r @ [name]\<rparr> else r) = Inr r'"
    by (auto simp: e bindE_eq_Inr)
  note ih = Cons.IH [OF rest]
  have comp: "components r' = components r"
    using ih by (auto split: if_splits)
  have old: "set (securitySchemes r) \<subseteq> set (securitySchemes r')"
    using ih by (auto split: if_splits)
  have hd: "name \<in> set (securitySchemes r')"
    if "test name \<or> (case own_prop s ''description'' of JStr d \<Rightarrow> test d | _ \<Rightarrow> False)"
  proof -
    from description_hit [OF that] h have "h" by simp
    with ih show ?thesis by auto
  qed
  from comp old hd ih show ?case
    by (auto simp: e)
qed

text \<open>
  C9. Let \<^verbatim>\<open>components.securitySchemes\<close> be a mapping that stores \<open>scheme\<close> under \<open>name\<close>,
  and let the name, or the scheme's description string, match the pattern. Whenever
  \<^verbatim>\<open>search-schema\<close> completes, its result has the entry \<^verbatim>\<open>securitySchemes.name\<close> in the
  category \<^verbatim>\<open>components\<close> and the entry \<^verbatim>\<open>name\<close> in the category \<^verbatim>\<open>securitySchemes\<close>.
\<close>

theorem security_scheme_reported_twice:
  assumes "RegExp pattern = Some test"
    and "search_schema RegExp openApiDoc pattern = Inr out"
    and "own_prop openApiDoc ''components'' = JObj comps"
    and "own_prop (JObj comps) ''securitySchemes'' = JObj schemes"
    and "map_of schemes name = Some scheme"
    and "test name \<or> (case own_prop scheme ''description'' of JStr d \<Rightarrow> test d | _ \<Rightarrow> False)"
  shows
    "\<exists>kvs cs ss. out = Yaml (JObj kvs)
       \<and> map_of kvs ''components'' = Some (JArr (map JStr cs))
       \<and> ''securitySchemes.'' @ name \<in> set cs
       \<and> map_of kvs ''securitySchemes'' = Some (JArr (map JStr ss))
       \<and> name \<in> set ss"
proof -
  from assms(1,2) obtain r where scan: "scan_document test openApiDoc = Inr r"
    and out: "out = render_results r pattern"
    by (auto simp: search_schema_def bindE_eq_Inr)
  have cs: "or_else (JObj comps) (JObj []) = JObj comps"
    by (simp add: or_else_def)
  have ss: "or_else (JObj schemes) (JObj []) = JObj schemes"
    by (simp add: or_else_def)
  have nn: "\<not> nullish openApiDoc"
    using assms(3) by (cases openApiDoc) auto
  from scan obtain r1 r2 where
    c: "scan_components test (map (\<lambda>k. (k, own_prop (JObj comps) k)) (own_keys (JObj comps))) r1
          = Inr r2"
    and s: "scan_schemes test (map (\<lambda>k. (k, own_prop (JObj schemes) k)) (own_keys (JObj schemes))) r2
          = Inr r"
    using nn assms(3,4)
    by (auto simp: scan_document_def bindE_eq_Inr get_def cs ss Let_def Object_entries_def
        simp del: own_prop.simps own_keys.simps)
  have "map_of comps ''securitySchemes'' = Some (JObj schemes)"
    using assms(4) by (auto split: option.splits)
  then have key: "''securitySchemes'' \<in> set (own_keys (JObj comps))"
    by (rule map_of_Some_own_key)
  have entry: "(''securitySchemes'', JObj schemes)
      \<in> set (map (\<lambda>k. (k, own_prop (JObj comps) k)) (own_keys (JObj comps)))"
    using key assms(4) by (auto simp: image_iff simp del: own_prop.simps own_keys.simps)
  from scan_components_result [OF c] entry assms(5,6)
  have in2: "''securitySchemes'' @ ''.'' @ name \<in> set (components r2)"
    by blast
  have name: "name \<in> set (own_keys (JObj schemes))"
    using assms(5) by (rule map_of_Some_own_key)
  have sentry: "(name, scheme)
      \<in> set (map (\<lambda>k. (k, own_prop (JObj schemes) k)) (own_keys (JObj schemes)))"
    using name assms(5) by (auto simp: image_iff)
  from scan_schemes_result [OF s] sentry assms(6)
  have same: "components r = components r2" and ins: "name \<in> set (securitySchemes r)"
    by blast+
  have inc: "''securitySchemes.'' @ name \<in> set (components r)"
    using in2 same by simp
  have ne: "components r \<noteq> []" "securitySchemes r \<noteq> []"
    using inc ins by auto
  let ?kvs = "map (\<lambda>(key, xs). (key, JArr (map JStr xs))) (clean_up r)"
  have "length (clean_up r) \<noteq> 0"
    using ne clean_up_empty [of r] by simp
  then have o: "out = Yaml (JObj ?kvs)"
    by (simp add: out render_results_def Let_def)
  have k3: "map_of ?kvs ''components'' = Some (JArr (map JStr (components r)))"
    using kept_lookup [of "''components''" "components r" r] ne
    by (simp add: result_entries_def)
  have k5: "map_of ?kvs ''securitySchemes'' = Some (JArr (map JStr (securitySchemes r)))"
    using kept_lookup [of "''securitySchemes''" "securitySchemes r" r] ne
    by (simp add: result_entries_def)
  from o k3 inc k5 ins show ?thesis
    by blast
qed

text \<open>The theorem on the sample document, with the pattern \<^verbatim>\<open>key\<close>.\<close>

theorem security_scheme_reported_twice_witness:
  "\<exists>kvs cs ss. search_schema substring_RegExp doc_security ''key'' = Inr (Yaml (JObj kvs))
       \<and> map_of kvs ''components'' = Some (JArr (map JStr cs))
       \<and> ''securitySchemes.apiKeyAuth'' \<in> set cs
       \<and> map_of kvs ''securitySchemes'' = Some (JArr (map JStr ss))
       \<and> ''apiKeyAuth'' \<in> set ss"
proof -
  let ?key = "\<lambda>s. contains (toLowerCase ''key'') (toLowerCase s)"
  let ?scheme = "JObj [(''type'', JStr ''apiKey''), (''description'', JStr ''API key'')]"
  let ?out = "Yaml (JObj [(''components'', JArr [JStr ''securitySchemes.apiKeyAuth'']),
                          (''securitySchemes'', JArr [JStr ''apiKeyAuth''])])"
  have h1: "substring_RegExp ''key'' = Some ?key"
    by (simp add: substring_RegExp_def)
  have h2: "search_schema substring_RegExp doc_security ''key'' = Inr ?out"
    by (simp add: search_schema_def search_eval render_results_def clean_up_def result_entries_def)
  have h3: "own_prop doc_security ''components''
      = JObj [(''securitySchemes'', JObj [(''apiKeyAuth'', ?scheme)])]"
    by (simp add: doc_security_def)
  have h4: "own_prop (JObj [(''securitySchemes'', JObj [(''apiKeyAuth'', ?scheme)])]) ''securitySchemes''
      = JObj [(''apiKeyAuth'', ?scheme)]"
    by simp
  have h5: "map_of [(''apiKeyAuth'', ?scheme)] ''apiKeyAuth'' = Some ?scheme"
    by simp
  have h6: "?key ''apiKeyAuth''
      \<or> (case own_prop ?scheme ''description'' of JStr d \<Rightarrow> ?key d | _ \<Rightarrow> False)"
    by (simp add: js_eval)
  from security_scheme_reported_twice [where RegExp = substring_RegExp and pattern = "''key''", OF h1 h2 h3 h4 h5 h6] h2
  show ?thesis
    by simp
qed

section \<open>Endpoint listing\<close>

text \<open>
  C7 asks for a result whose keys are exactly the keys of \<^verbatim>\<open>paths\<close>. \<^verbatim>\<open>list-endpoints\<close>, whose
  description is ``Lists all API paths and their HTTP methods with summaries'', stores the
  entry of each path with \<^verbatim>\<open>pathMap[path] = {}\<close>. For the key \<^verbatim>\<open>__proto__\<close> this assignment
  creates no property: the sample document has the paths \<^verbatim>\<open>/pets\<close> and \<^verbatim>\<open>__proto__\<close>, and
  the result has \<^verbatim>\<open>/pets\<close> alone.
\<close>

theorem list_endpoints_drops_proto_path:
  "own_keys (own_prop doc_proto_path ''paths'') = [''/pets'', ''__proto__'']
   \<and> list_endpoints doc_proto_path
       = Inr (Yaml (JObj [(''/pets'', JObj [(''GET'', JStr ''List all pets'')])]))"
  by (simp add: list_endpoints_def doc_proto_path_def js_eval)

subsection \<open>Away from the key \<^verbatim>\<open>__proto__\<close>\<close>

lemma map_of_put_own: "map_of (put_own kvs k v) = (map_of kvs)(k \<mapsto> v)"
  by (induction kvs) auto

lemma keys_put_own: "set (map fst (put_own kvs k v)) = insert k (set (map fst kvs))"
proof -
  have "dom (map_of (put_own kvs k v)) = insert k (dom (map_of kvs))"
    by (simp add: map_of_put_own)
  then show ?thesis
    by (simp add: dom_map_of_conv_image_fst)
qed

lemma keys_foldl_put_own:
  "set (map fst (foldl (\<lambda>a x. put_own a (K x) (V x)) acc xs)) = set (map fst acc) \<union> K ` set xs"
proof (induction xs arbitrary: acc)
  case Nil
  then show ?case by simp
next
  case (Cons x xs)
  show ?case
    by (simp add: Cons.IH keys_put_own del: set_map)
qed

lemma map_of_foldl_put_own:
  assumes "x \<in> set xs" and "\<forall>y \<in> set xs. K y = K x \<longrightarrow> V y = V x"
  shows "map_of (foldl (\<lambda>a x. put_own a (K x) (V x)) acc xs) (K x) = Some (V x)"
  using assms
proof (induction xs arbitrary: acc rule: rev_induct)
  case Nil
  then show ?case by simp
next
  case (snoc y ys)
  show ?case
  proof (cases "K y = K x")
    case True
    with snoc.prems have "V y = V x" by simp
    with True show ?thesis
      by (simp add: map_of_put_own)
  next
    case False
    with snoc.prems have "x \<in> set ys" "\<forall>y \<in> set ys. K y = K x \<longrightarrow> V y = V x"
      by auto
    from snoc.IH [OF this] False show ?thesis
      by (simp add: map_of_put_own)
  qed
qed

lemma foldl_assign_put_own:
  assumes "\<forall>x \<in> set xs. K x \<noteq> ''__proto__''"
  shows "foldl (\<lambda>a x. assign a (K x) (V x)) acc xs = foldl (\<lambda>a x. put_own a (K x) (V x)) acc xs"
  using assms by (induction xs arbitrary: acc) (simp_all add: assign_def)

lemma upper_method_not_proto:
  assumes "toLowerCase m \<in> set http_methods"
  shows "toUpperCase m \<noteq> ''__proto__''"
proof
  assume "toUpperCase m = ''__proto__''"
  then have "length (toUpperCase m) = length ''__proto__''"
    by simp
  then have nine: "length m = 9"
    by (simp add: toUpperCase_def)
  have "length (toLowerCase m) = length m"
    by (simp add: toLowerCase_def)
  with assms nine show False
    by (auto simp: http_methods_def)
qed

text \<open>Where no operation and no Path Item is missing, the two loops of \<^verbatim>\<open>list-endpoints\<close> are folds.\<close>

lemma list_methods_total:
  assumes "\<forall>m \<in> set ms. \<not> nullish (own_prop pathItem m)"
  shows "list_methods pathItem ms acc
    = Inr (foldl (\<lambda>a m. assign a (toUpperCase m)
             (or_else (own_prop (own_prop pathItem m) ''summary'') (JStr ''No summary''))) acc ms)"
  using assms
  by (induction ms arbitrary: acc) (simp_all add: get_def Let_def)

lemma list_paths_total:
  assumes "\<forall>(path, pathItem) \<in> set es. \<not> nullish pathItem
     \<and> (\<forall>m \<in> set (own_keys pathItem). toLowerCase m \<in> set http_methods
           \<longrightarrow> \<not> nullish (own_prop pathItem m))"
  shows "list_paths es pathMap
    = Inr (foldl (\<lambda>a e. assign a (fst e)
        (JObj (foldl (\<lambda>a m. assign a (toUpperCase m)
                 (or_else (own_prop (own_prop (snd e) m) ''summary'') (JStr ''No summary''))) []
               (filter (\<lambda>key. toLowerCase key \<in> set http_methods) (own_keys (snd e))))))
        pathMap es)"
  using assms
proof (induction es arbitrary: pathMap)
  case Nil
  then show ?case by simp
next
  case (Cons e es)
  obtain path pathItem where e: "e = (path, pathItem)"
    by (cases e)
  from Cons.prems have nn: "\<not> nullish pathItem"
    and ops: "\<forall>m \<in> set (filter (\<lambda>key. toLowerCase key \<in> set http_methods) (own_keys pathItem)).
                \<not> nullish (own_prop pathItem m)"
    and rest: "\<forall>(path, pathItem) \<in> set es. \<not> nullish pathItem
     \<and> (\<forall>m \<in> set (own_keys pathItem). toLowerCase m \<in> set http_methods
           \<longrightarrow> \<not> nullish (own_prop pathItem m))"
    by (auto simp: e)
  show ?case
    by (simp add: e Object_keys_def nn Let_def list_methods_total [OF ops] Cons.IH [OF rest])
qed

text \<open>
  What the claim says holds away from that key. Take a document that has no path
  \<^verbatim>\<open>__proto__\<close> and whose Path Items, and whose values under the method keys of a Path Item,
  are neither \<^verbatim>\<open>null\<close> nor missing (where one is, \<^verbatim>\<open>list-endpoints\<close> throws). Then the result
  is a mapping whose keys are exactly the keys of \<^verbatim>\<open>paths\<close>. The entry of a path is a mapping
  whose keys are exactly the upper-cased keys of the Path Item that are one of the seven
  methods when lower-cased. The value under the upper-cased method key \<open>m\<close> is the operation's
  \<^verbatim>\<open>summary\<close> when that is truthy and \<^verbatim>\<open>No summary\<close> otherwise, so also when it is missing;
  where two method keys of one Path Item differ in case only, they share one upper-cased key
  and the lemma leaves its value open.
\<close>

lemma list_endpoints_paths_and_methods:
  assumes "get openApiDoc ''paths'' = Inr pathsObj"
    and "pathsV = or_else pathsObj (JObj [])"
    and "\<forall>path \<in> set (own_keys pathsV).
           \<not> nullish (own_prop pathsV path)
           \<and> (\<forall>m \<in> set (own_keys (own_prop pathsV path)).
                 toLowerCase m \<in> set http_methods
                 \<longrightarrow> \<not> nullish (own_prop (own_prop pathsV path) m))"
    and "''__proto__'' \<notin> set (own_keys pathsV)"
  shows
    "\<exists>pathMap. list_endpoints openApiDoc = Inr (Yaml (JObj pathMap))
       \<and> set (map fst pathMap) = set (own_keys pathsV)
       \<and> (\<forall>path \<in> set (own_keys pathsV).
            \<exists>entry. map_of pathMap path = Some (JObj entry)
              \<and> set (map fst entry)
                  = toUpperCase ` {m \<in> set (own_keys (own_prop pathsV path)).
                                     toLowerCase m \<in> set http_methods}
              \<and> (\<forall>m \<in> set (own_keys (own_prop pathsV path)).
                    toLowerCase m \<in> set http_methods
                    \<and> (\<forall>m' \<in> set (own_keys (own_prop pathsV path)).
                          toLowerCase m' \<in> set http_methods
                          \<and> toUpperCase m' = toUpperCase m \<longrightarrow> m' = m)
                    \<longrightarrow> map_of entry (toUpperCase m)
                          = Some (if truthy (own_prop (own_prop (own_prop pathsV path) m) ''summary'')
                                  then own_prop (own_prop (own_prop pathsV path) m) ''summary''
                                  else JStr ''No summary'')))"
proof -
  let ?methods = "\<lambda>item. filter (\<lambda>key. toLowerCase key \<in> set http_methods) (own_keys item)"
  let ?summary_of = "\<lambda>item m. or_else (own_prop (own_prop item m) ''summary'') (JStr ''No summary'')"
  let ?entry = "\<lambda>item. foldl (\<lambda>a m. assign a (toUpperCase m) (?summary_of item m)) [] (?methods item)"
  let ?es = "map (\<lambda>k. (k, own_prop pathsV k)) (own_keys pathsV)"
  let ?pathMap = "foldl (\<lambda>a e. assign a (fst e) (JObj (?entry (snd e)))) [] ?es"
  have inner: "?entry item
      = foldl (\<lambda>a m. put_own a (toUpperCase m) (?summary_of item m)) [] (?methods item)" for item
    by (rule foldl_assign_put_own) (simp add: upper_method_not_proto)
  have outer: "?pathMap = foldl (\<lambda>a e. put_own a (fst e) (JObj (?entry (snd e)))) [] ?es"
    by (rule foldl_assign_put_own) (use assms(4) in auto)
  have nn: "\<not> nullish pathsV"
    by (cases pathsObj) (simp_all add: assms(2) or_else_def)
  have entries: "Object_entries pathsV = Inr ?es"
    using nn by (simp add: Object_entries_def)
  have wf: "\<forall>(path, pathItem) \<in> set ?es. \<not> nullish pathItem
     \<and> (\<forall>m \<in> set (own_keys pathItem). toLowerCase m \<in> set http_methods
           \<longrightarrow> \<not> nullish (own_prop pathItem m))"
    using assms(3) by auto
  have run: "list_endpoints openApiDoc = Inr (Yaml (JObj ?pathMap))"
    using assms(1) entries
    by (simp add: list_endpoints_def assms(2) [symmetric] list_paths_total [OF wf])
  have keys: "set (map fst ?pathMap) = set (own_keys pathsV)"
    unfolding outer by (simp only: keys_foldl_put_own) (simp add: image_image)
  have entry: "map_of ?pathMap path = Some (JObj (?entry (own_prop pathsV path)))"
    if "path \<in> set (own_keys pathsV)" for path
  proof -
    have mem: "(path, own_prop pathsV path) \<in> set ?es"
      using that by simp
    have same: "\<forall>y \<in> set ?es. fst y = fst (path, own_prop pathsV path)
           \<longrightarrow> JObj (?entry (snd y)) = JObj (?entry (snd (path, own_prop pathsV path)))"
      by auto
    from map_of_foldl_put_own [where K = fst and V = "\<lambda>e. JObj (?entry (snd e))", OF mem same]
    show ?thesis
      unfolding outer by simp
  qed
  have mkeys: "set (map fst (?entry item))
      = toUpperCase ` {m \<in> set (own_keys item). toLowerCase m \<in> set http_methods}" for item
    unfolding inner by (simp only: keys_foldl_put_own) auto
  have mval: "map_of (?entry item) (toUpperCase m)
      = Some (if truthy (own_prop (own_prop item m) ''summary'')
              then own_prop (own_prop item m) ''summary'' else JStr ''No summary'')"
    if "m \<in> set (own_keys item)" "toLowerCase m \<in> set http_methods"
      "\<forall>m' \<in> set (own_keys item). toLowerCase m' \<in> set http_methods
          \<and> toUpperCase m' = toUpperCase m \<longrightarrow> m' = m"
    for item m
  proof -
    have mem: "m \<in> set (?methods item)"
      using that(1,2) by simp
    have same: "\<forall>y \<in> set (?methods item). toUpperCase y = toUpperCase m
           \<longrightarrow> ?summary_of item y = ?summary_of item m"
      using that(3) by auto
    from map_of_foldl_put_own [where K = toUpperCase and V = "?summary_of item", OF mem same]
    show ?thesis
      unfolding inner by (simp add: or_else_def)
  qed
  from run keys entry mkeys mval show ?thesis
    by (intro exI [of _ ?pathMap]) blast
qed

text \<open>
  The lemma on a sample document: \<^verbatim>\<open>parameters\<close> is no method, \<^verbatim>\<open>get\<close> has a summary and
  \<^verbatim>\<open>post\<close> has none.
\<close>

lemma list_endpoints_paths_and_methods_example:
  "\<exists>pathMap entry. list_endpoints doc_shared_parameters = Inr (Yaml (JObj pathMap))
     \<and> set (map fst pathMap) = {''/pets''}
     \<and> map_of pathMap ''/pets'' = Some (JObj entry)
     \<and> set (map fst entry) = {''GET'', ''POST''}
     \<and> map_of entry ''GET'' = Some (JStr ''List all pets'')
     \<and> map_of entry ''POST'' = Some (JStr ''No summary'')"
proof -
  let ?item = "JObj
       [(''parameters'', JArr [JObj [(''name'', JStr ''limit''), (''in'', JStr ''query'')]]),
        (''get'', JObj
          [(''summary'', JStr ''List all pets''),
           (''parameters'', JArr [JObj [(''name'', JStr ''limit''), (''in'', JStr ''header'')]])]),
        (''post'', JObj [(''description'', JStr ''Creates a new pet'')])]"
  let ?paths = "JObj [(''/pets'', ?item)]"
  have h1: "get doc_shared_parameters ''paths'' = Inr ?paths"
    by (simp add: doc_shared_parameters_def get_def)
  have h2: "?paths = or_else ?paths (JObj [])"
    by (simp add: or_else_def)
  have pk: "own_keys ?paths = [''/pets'']"
    by (simp add: js_eval)
  have pi: "own_prop ?paths ''/pets'' = ?item"
    by simp
  have ik: "own_keys ?item = [''parameters'', ''get'', ''post'']"
    by (simp add: js_eval)
  have lo: "toLowerCase ''parameters'' \<notin> set http_methods"
    "toLowerCase ''get'' \<in> set http_methods" "toLowerCase ''post'' \<in> set http_methods"
    by (simp_all add: js_eval)
  have up: "toUpperCase ''get'' = ''GET''" "toUpperCase ''post'' = ''POST''"
    "toUpperCase ''parameters'' = ''PARAMETERS''"
    by (simp_all add: js_eval)
  have h3: "\<forall>path \<in> set (own_keys ?paths).
           \<not> nullish (own_prop ?paths path)
           \<and> (\<forall>m \<in> set (own_keys (own_prop ?paths path)).
                 toLowerCase m \<in> set http_methods
                 \<longrightarrow> \<not> nullish (own_prop (own_prop ?paths path) m))"
    unfolding pk by (simp add: ik lo del: own_keys.simps)
  have h4: "''__proto__'' \<notin> set (own_keys ?paths)"
    unfolding pk by simp
  from list_endpoints_paths_and_methods [OF h1 h2 h3 h4]
  obtain pathMap where run: "list_endpoints doc_shared_parameters = Inr (Yaml (JObj pathMap))"
    and keys: "set (map fst pathMap) = set (own_keys ?paths)"
    and each: "\<forall>path \<in> set (own_keys ?paths).
            \<exists>entry. map_of pathMap path = Some (JObj entry)
              \<and> set (map fst entry)
                  = toUpperCase ` {m \<in> set (own_keys (own_prop ?paths path)).
                                     toLowerCase m \<in> set http_methods}
              \<and> (\<forall>m \<in> set (own_keys (own_prop ?paths path)).
                    toLowerCase m \<in> set http_methods
                    \<and> (\<forall>m' \<in> set (own_keys (own_prop ?paths path)).
                          toLowerCase m' \<in> set http_methods
                          \<and> toUpperCase m' = toUpperCase m \<longrightarrow> m' = m)
                    \<longrightarrow> map_of entry (toUpperCase m)
                          = Some (if truthy (own_prop (own_prop (own_prop ?paths path) m) ''summary'')
                                  then own_prop (own_prop (own_prop ?paths path) m) ''summary''
                                  else JStr ''No summary''))"
    by blast
  have mem: "''/pets'' \<in> set (own_keys ?paths)"
    unfolding pk by simp
  from bspec [OF each mem]
  obtain entry where e: "map_of pathMap ''/pets'' = Some (JObj entry)"
    and ek0: "set (map fst entry)
        = toUpperCase ` {m \<in> set (own_keys (own_prop ?paths ''/pets'')).
                           toLowerCase m \<in> set http_methods}"
    and ev0: "\<forall>m \<in> set (own_keys (own_prop ?paths ''/pets'')).
                    toLowerCase m \<in> set http_methods
                    \<and> (\<forall>m' \<in> set (own_keys (own_prop ?paths ''/pets'')).
                          toLowerCase m' \<in> set http_methods
                          \<and> toUpperCase m' = toUpperCase m \<longrightarrow> m' = m)
                    \<longrightarrow> map_of entry (toUpperCase m)
                          = Some (if truthy (own_prop (own_prop (own_prop ?paths ''/pets'') m) ''summary'')
                                  then own_prop (own_prop (own_prop ?paths ''/pets'') m) ''summary''
                                  else JStr ''No summary'')"
    by blast
  note ek = ek0 [unfolded pi ik]
  note ev = ev0 [unfolded pi ik]
  have k1: "set (map fst pathMap) = {''/pets''}"
    using keys unfolding pk by simp
  have ms: "{m \<in> set [''parameters'', ''get'', ''post'']. toLowerCase m \<in> set http_methods}
      = {''get'', ''post''}"
    using lo by auto
  have k2: "set (map fst entry) = {''GET'', ''POST''}"
    unfolding ek ms using up by simp
  have g: "map_of entry ''GET'' = Some (JStr ''List all pets'')"
    using ev lo up by simp
  have p: "map_of entry ''POST'' = Some (JStr ''No summary'')"
    using ev lo up by simp
  from run k1 e k2 g p show ?thesis
    by blast
qed

end
